theory Spec2Isabelle
  imports Complex_Main
begin

text \<open>
  The report scripts for the GMV Max reporting API: six Google Apps Script functions that
  page through a report, flatten its items into rows and write a sheet, one of them over
  many date windows and advertisers with summed totals and an error log. The first part
  models the scripts, function by function; the second part proves their properties.
\<close>

section \<open>Window planner\<close>

text \<open>
  \<open>buildDailyWindows_\<close> of the batch script slices the range from the fixed start to
  today into windows of at most 30 days (the model drops the final underscore of the
  source's private names, which an Isabelle name cannot end in). A date string
  \<open>yyyy-MM-dd\<close> is represented by its day number, the days since 1970-01-01, and an
  instant by its milliseconds since the epoch.

  Two time zones take part. \<open>new Date(s + 'T00:00:00')\<close> reads a date and time without
  an offset as local time of the script's own zone, which is a setting of the script
  project and is fixed by no file of the repository. \<open>Utilities.formatDate(t, tz,
  'yyyy-MM-dd')\<close> prints the day on which the instant \<open>t\<close> falls in the zone \<open>tz\<close> that the
  caller passes (Asia/Jakarta). A zone is modelled by what the planner asks of it: the
  instant at which a day begins there, and the day on which an instant falls there.
\<close>

definition msDay :: int where
  "msDay = 24 * 60 * 60 * 1000"

record zone =
  midnight :: "int \<Rightarrow> int"
  dayOf :: "int \<Rightarrow> int"

text \<open>
  A zone that is always \<open>offset\<close> milliseconds ahead of UTC, as Asia/Jakarta is seven
  hours ahead.
\<close>

definition fixedOffset :: "int \<Rightarrow> zone" where
  "fixedOffset offset =
     \<lparr> midnight = (\<lambda>day. day * msDay - offset),
       dayOf = (\<lambda>t. (t + offset) div msDay) \<rparr>"

definition msHour :: int where
  "msHour = 60 * 60 * 1000"

text \<open>
  The \<open>while (curStart <= end)\<close> loop on instants; the list is \<open>out\<close> in the order of the
  pushes, each bound printed in \<open>tz\<close>.
\<close>

function buildDailyWindows_loop :: "zone \<Rightarrow> int \<Rightarrow> int \<Rightarrow> (int \<times> int) list" where
  "buildDailyWindows_loop tz curStart endT =
     (if curStart \<le> endT
      then (let curEnd = min endT (curStart + 29 * msDay)
            in (dayOf tz curStart, dayOf tz curEnd)
               # buildDailyWindows_loop tz (curEnd + msDay) endT)
      else [])"
  by pat_completeness auto
termination
  by (relation "measure (\<lambda>(tz, curStart, endT). nat (endT + 1 - curStart))")
     (auto simp: msDay_def min_def)

text \<open>
  The planner: \<open>start\<close> and \<open>end\<close> are the two dates read in the script's zone, the bounds
  of the windows are printed in \<open>tz\<close>.
\<close>

definition buildDailyWindows :: "zone \<Rightarrow> int \<Rightarrow> int \<Rightarrow> zone \<Rightarrow> (int \<times> int) list" where
  "buildDailyWindows scriptZone startDay endDay tz =
     buildDailyWindows_loop tz (midnight scriptZone startDay) (midnight scriptZone endDay)"

text \<open>
  The windows as the specification describes them, on calendar days: start at the range
  start; each window ends at the overall end or 29 days after its start, whichever comes
  first; the next window starts the day after.
\<close>

function specWindows :: "int \<Rightarrow> int \<Rightarrow> (int \<times> int) list" where
  "specWindows startDay endDay =
     (if startDay \<le> endDay
      then (startDay, min endDay (startDay + 29))
           # specWindows (min endDay (startDay + 29) + 1) endDay
      else [])"
  by pat_completeness auto
termination
  by (relation "measure (\<lambda>(startDay, endDay). nat (endDay + 1 - startDay))")
     (auto simp: min_def)

text \<open>Each window starts the day after the previous one ends.\<close>

fun contiguous :: "(int \<times> int) list \<Rightarrow> bool" where
  "contiguous (w # v # ws) = (fst v = snd w + 1 \<and> contiguous (v # ws))"
| "contiguous _ = True"

text \<open>The days a sequence of windows covers.\<close>

definition covered :: "(int \<times> int) list \<Rightarrow> int set" where
  "covered ws = (\<Union>w \<in> set ws. {fst w .. snd w})"


section \<open>JavaScript values\<close>

text \<open>
  The scripts are Google Apps Script (JavaScript). A number is an IEEE double: a finite
  value is kept as the rational it denotes, beside the two infinities and NaN; the two
  zeros are one value, taken as the positive one where the sign could show (the sign of a
  quotient by zero).
\<close>

datatype jsnum = Fin rat | PInf | NInf | NaN

text \<open>
  A value as \<open>JSON.parse\<close> gives it or as the scripts build it. An object is the list of
  its own properties in insertion order; a key that occurs twice in the list counts once,
  with the value it has where it stands first. The names every object inherits from
  \<open>Object.prototype\<close> (\<open>toString\<close>, \<open>constructor\<close>, ...), the \<open>length\<close> and the index keys
  of arrays and strings are not modelled: the scripts read fixed field names and the
  API's metric names.
\<close>

datatype jsval =
    JUndefined
  | JNull
  | JBool bool
  | JNum jsnum
  | JStr string
  | JArr "jsval list"
  | JObj "(string \<times> jsval) list"

type_synonym obj = "(string \<times> jsval) list"

text \<open>
  What is thrown: \<open>new Error(message)\<close> by the scripts, a \<open>TypeError\<close> or a \<open>SyntaxError\<close> by
  the engine, an \<open>Exception\<close> by a service of Apps Script. For the last three the string
  names the operation that failed.
\<close>

datatype exn = Error string | TypeError string | SyntaxError string | Exception string

text \<open>
  The engine's own functions are parameters of the model: \<open>parseFloat\<close>; \<open>Number\<close> applied
  to a string, an array or an object (all three convert through text); the conversion to
  a string of \<open>+\<close> and of template literals; the rounding of an exact result to a double
  (to an infinity on overflow); \<open>new Date(text).getTime()\<close>, \<open>None\<close> for an invalid date;
  and the message text of an error the engine itself throws.
\<close>

record engine =
  parseFloat :: "string \<Rightarrow> jsnum"
  numberOfText :: "jsval \<Rightarrow> jsnum"
  toString :: "jsval \<Rightarrow> string"
  roundDouble :: "rat \<Rightarrow> jsnum"
  dateParse :: "string \<Rightarrow> int option"
  nativeMessage :: "exn \<Rightarrow> string"

fun isFinite :: "jsnum \<Rightarrow> bool" where
  "isFinite (Fin q) = True"
| "isFinite _ = False"

text \<open>\<open>a + b\<close> on two numbers.\<close>

fun js_add :: "engine \<Rightarrow> jsnum \<Rightarrow> jsnum \<Rightarrow> jsnum" where
  "js_add E NaN b = NaN"
| "js_add E a NaN = NaN"
| "js_add E (Fin x) (Fin y) = roundDouble E (x + y)"
| "js_add E PInf NInf = NaN"
| "js_add E NInf PInf = NaN"
| "js_add E PInf b = PInf"
| "js_add E NInf b = NInf"
| "js_add E (Fin x) b = b"

text \<open>\<open>a / b\<close> on two numbers.\<close>

fun js_div :: "engine \<Rightarrow> jsnum \<Rightarrow> jsnum \<Rightarrow> jsnum" where
  "js_div E NaN b = NaN"
| "js_div E a NaN = NaN"
| "js_div E (Fin x) (Fin y) =
     (if y \<noteq> 0 then roundDouble E (x / y)
      else if x = 0 then NaN else if 0 < x then PInf else NInf)"
| "js_div E (Fin x) b = Fin 0"
| "js_div E a (Fin y) = (if (a = PInf) = (0 \<le> y) then PInf else NInf)"
| "js_div E a b = NaN"

text \<open>\<open>a > 0\<close> and \<open>a === 0\<close> on a number.\<close>

fun positive :: "jsnum \<Rightarrow> bool" where
  "positive (Fin q) = (0 < q)"
| "positive PInf = True"
| "positive _ = False"

fun isZero :: "jsnum \<Rightarrow> bool" where
  "isZero (Fin q) = (q = 0)"
| "isZero _ = False"

text \<open>\<open>page >= n\<close> for the page counter, a natural number.\<close>

fun page_ge :: "nat \<Rightarrow> jsnum \<Rightarrow> bool" where
  "page_ge p (Fin q) = (q \<le> of_nat p)"
| "page_ge p NInf = True"
| "page_ge p _ = False"

text \<open>The values that count as true in \<open>if\<close>, \<open>!\<close>, \<open>&&\<close> and \<open>||\<close>.\<close>

fun truthy :: "jsval \<Rightarrow> bool" where
  "truthy JUndefined = False"
| "truthy JNull = False"
| "truthy (JBool b) = b"
| "truthy (JNum (Fin q)) = (q \<noteq> 0)"
| "truthy (JNum NaN) = False"
| "truthy (JNum _) = True"
| "truthy (JStr s) = (s \<noteq> [])"
| "truthy (JArr _) = True"
| "truthy (JObj _) = True"

text \<open>\<open>a || b\<close>.\<close>

definition or_else :: "jsval \<Rightarrow> jsval \<Rightarrow> jsval" where
  "or_else a b = (if truthy a then a else b)"

text \<open>\<open>o[k]\<close> on an object of the scripts' own, and \<open>k in o\<close>.\<close>

definition lookup :: "obj \<Rightarrow> string \<Rightarrow> jsval" where
  "lookup kvs k = (case map_of kvs k of Some v \<Rightarrow> v | None \<Rightarrow> JUndefined)"

definition has_key :: "obj \<Rightarrow> string \<Rightarrow> bool" where
  "has_key kvs k = (k \<in> fst ` set kvs)"

text \<open>\<open>o[k] = v\<close>: an existing key keeps its place, a new key goes last.\<close>

fun assign :: "obj \<Rightarrow> string \<Rightarrow> jsval \<Rightarrow> obj" where
  "assign [] k v = [(k, v)]"
| "assign ((k', v') # kvs) k v =
     (if k' = k then (k, v) # kvs else (k', v') # assign kvs k v)"

text \<open>
  \<open>v.k\<close> on a value that is neither \<open>null\<close> nor \<open>undefined\<close>: a value that is not an object
  has none of the names the scripts read.
\<close>

fun getProp :: "jsval \<Rightarrow> string \<Rightarrow> jsval" where
  "getProp (JObj kvs) k = lookup kvs k"
| "getProp _ k = JUndefined"

fun nullish :: "jsval \<Rightarrow> bool" where
  "nullish JUndefined = True"
| "nullish JNull = True"
| "nullish _ = False"

text \<open>\<open>v.k\<close> on any value: reading a property of \<open>null\<close> or \<open>undefined\<close> throws.\<close>

definition get :: "jsval \<Rightarrow> string \<Rightarrow> exn + jsval" where
  "get v k = (if nullish v then Inl (TypeError k) else Inr (getProp v k))"

text \<open>\<open>Object.keys(v)\<close>, and the own properties that \<open>Object.assign({}, v)\<close> copies.\<close>

fun objectKeys :: "jsval \<Rightarrow> string list" where
  "objectKeys (JObj kvs) = remdups (map fst kvs)"
| "objectKeys _ = []"

text \<open>\<open>Number(v)\<close>.\<close>

fun Number :: "engine \<Rightarrow> jsval \<Rightarrow> jsnum" where
  "Number E JUndefined = NaN"
| "Number E JNull = Fin 0"
| "Number E (JBool b) = Fin (if b then 1 else 0)"
| "Number E (JNum n) = n"
| "Number E v = numberOfText E v"

section \<open>Totals aggregator\<close>

text \<open>
  \<open>num_\<close>: \<open>typeof x === 'string' ? parseFloat(x) : Number(x)\<close>; the final
  \<open>isNaN(n) ? NaN : n\<close> changes nothing.
\<close>

fun num :: "engine \<Rightarrow> jsval \<Rightarrow> jsnum" where
  "num E (JStr s) = parseFloat E s"
| "num E x = Number E x"

text \<open>\<open>n || 0\<close> on a number: NaN and zero give zero.\<close>

definition or_zero :: "jsnum \<Rightarrow> jsnum" where
  "or_zero n = (if truthy (JNum n) then n else Fin 0)"

text \<open>The body of the \<open>forEach\<close> of \<open>sumTotals_\<close> for one key \<open>k\<close> of \<open>add\<close>.\<close>

definition sumTotals_key :: "engine \<Rightarrow> jsval \<Rightarrow> obj \<Rightarrow> string \<Rightarrow> obj" where
  "sumTotals_key E add out k =
     (let v = num E (getProp add k)
      in if isFinite v then assign out k (JNum (js_add E (or_zero (num E (lookup out k))) v))
         else if \<not> has_key out k then assign out k (getProp add k)
         else out)"

text \<open>
  \<open>sumTotals_(agg, add)\<close>: \<open>out\<close> starts as a copy of \<open>agg\<close>, and the keys of \<open>add || {}\<close>
  are visited in order.
\<close>

definition sumTotals :: "engine \<Rightarrow> obj \<Rightarrow> jsval \<Rightarrow> obj" where
  "sumTotals E agg add =
     foldl (sumTotals_key E (or_else add (JObj []))) agg (objectKeys (or_else add (JObj [])))"

text \<open>
  The recomputation of the overall ROI at the end of the batch script; \<open>totalsAgg\<close> is an
  object, so the outer \<open>if (totalsAgg)\<close> always holds.
\<close>

definition recomputeRoi :: "engine \<Rightarrow> obj \<Rightarrow> obj" where
  "recomputeRoi E totalsAgg =
     (let cost = num E (lookup totalsAgg ''cost'');
          gross = num E (lookup totalsAgg ''gross_revenue'');
          t1 = (if isFinite cost \<and> positive cost \<and> isFinite gross
                then assign totalsAgg ''roi'' (JNum (js_div E gross cost))
                else totalsAgg);
          netCost = num E (lookup t1 ''net_cost'')
      in if (\<not> isFinite cost \<or> isZero cost) \<and> isFinite netCost \<and> positive netCost
            \<and> isFinite gross
         then assign t1 ''roi'' (JNum (js_div E gross netCost))
         else t1)"

section \<open>Reports and requests\<close>

text \<open>
  The six scripts, named after their entry functions. Five fetch one query from a
  configuration row; the last is the batch script, which fetches one query for every
  window and every pair of an advertiser and a store.
\<close>

datatype report =
    ProductGmvMaxCampaignDaily
  | ProductGmvMaxCampaignHourly
  | ProductGmvMaxCreativeStatuses
  | LiveGmvMaxCampaignHourly
  | ProductGmvMaxProductDaily
  | LiveGmvMaxCampaignDaily_SinceJune1_Simple

text \<open>
  What \<open>readConfig_\<close> returns (the cells of the configuration row are display strings);
  \<open>page_size\<close> is \<open>undefined\<close> or a number. The filter lists of the creative report are
  left out: no row and no check below reads them.
\<close>

record config =
  advertiser_id :: string
  store_id :: string
  start_date :: string
  end_date :: string
  campaign_id :: string
  page_size :: jsval
  enable_total_metrics :: bool

text \<open>
  The parameters of one call. The dimension, metric and filter lists are constants of a
  run, fixed by the report and the configuration; the request names the report in their
  place.
\<close>

record request =
  rq_report :: report
  rq_advertiser_id :: string
  rq_store_id :: string
  rq_start_date :: string
  rq_end_date :: string
  rq_campaign_id :: string
  rq_page :: nat
  rq_page_size :: jsval
  rq_enable_total_metrics :: bool

text \<open>
  The HTTP response: its status code, its text, and what \<open>JSON.parse\<close> makes of the text
  (a value, or the error it throws).
\<close>

record response =
  getResponseCode :: int
  getContentText :: string
  parsed :: "exn + jsval"

text \<open>\<open>UrlFetchApp.fetch\<close>: the API, which answers a request or throws.\<close>

type_synonym api = "request \<Rightarrow> exn + response"

definition params :: "report \<Rightarrow> config \<Rightarrow> nat \<Rightarrow> request" where
  "params R cfg page =
     \<lparr> rq_report = R,
       rq_advertiser_id = advertiser_id cfg,
       rq_store_id = store_id cfg,
       rq_start_date = start_date cfg,
       rq_end_date = end_date cfg,
       rq_campaign_id = campaign_id cfg,
       rq_page = page,
       rq_page_size = or_else (page_size cfg) (JNum (Fin 1000)),
       rq_enable_total_metrics = enable_total_metrics cfg \<rparr>"

text \<open>The en dash of the batch script's messages, in UTF-8.\<close>

definition endash :: string where
  "endash = [CHR 0xE2, CHR 0x80, CHR 0x93]"

text \<open>The error thrown on a status code other than 200.\<close>

fun httpError :: "engine \<Rightarrow> report \<Rightarrow> int \<Rightarrow> string \<Rightarrow> exn" where
  "httpError E ProductGmvMaxCreativeStatuses code text =
     Error (''HTTP '' @ toString E (JNum (Fin (of_int code))) @ '': '' @ text)"
| "httpError E LiveGmvMaxCampaignHourly code text =
     Error (''HTTP '' @ toString E (JNum (Fin (of_int code))) @ '': '' @ text)"
| "httpError E LiveGmvMaxCampaignDaily_SinceJune1_Simple code text =
     Error (''HTTP '' @ toString E (JNum (Fin (of_int code))) @ '' '' @ endash @ '' '' @ text)"
| "httpError E R code text =
     Error (''API error HTTP '' @ toString E (JNum (Fin (of_int code))) @ '': '' @ text)"

text \<open>The error thrown when \<open>body.code !== 0\<close>.\<close>

fun apiError :: "engine \<Rightarrow> report \<Rightarrow> jsval \<Rightarrow> jsval \<Rightarrow> exn" where
  "apiError E ProductGmvMaxCreativeStatuses c m =
     Error (''API '' @ toString E c @ '': '' @ toString E m)"
| "apiError E LiveGmvMaxCampaignHourly c m =
     Error (''API '' @ toString E c @ '': '' @ toString E m)"
| "apiError E LiveGmvMaxCampaignDaily_SinceJune1_Simple c m =
     Error (''API code '' @ toString E c @ '' '' @ endash @ '' '' @ toString E m)"
| "apiError E R c m =
     Error (''API returned code '' @ toString E c @ '' message: '' @ toString E m)"

text \<open>
  One call: the fetch, the check of the status code, \<open>JSON.parse\<close> and the check of
  \<open>body.code\<close>. The result is the body.
\<close>

definition fetchBody :: "engine \<Rightarrow> report \<Rightarrow> api \<Rightarrow> request \<Rightarrow> exn + jsval" where
  "fetchBody E R fetch req =
     (case fetch req of
        Inl err \<Rightarrow> Inl err
      | Inr res \<Rightarrow>
          if getResponseCode res \<noteq> 200
          then Inl (httpError E R (getResponseCode res) (getContentText res))
          else (case parsed res of
                  Inl err \<Rightarrow> Inl err
                | Inr body \<Rightarrow>
                    (case get body ''code'' of
                       Inl err \<Rightarrow> Inl err
                     | Inr c \<Rightarrow>
                         if c \<noteq> JNum (Fin 0)
                         then Inl (apiError E R c (getProp body ''message''))
                         else Inr body)))"

section \<open>Row flattening\<close>

text \<open>
  Where a field of a flattened row comes from: the configuration (\<open>String(cfg.advertiser_id)\<close>,
  \<open>String(cfg.store_id)\<close>, \<open>cfg.campaign_id\<close>), or a key of the item's \<open>dimensions\<close> or
  \<open>metrics\<close> with the default \<open>|| ''\<close>.
\<close>

datatype source = Advertiser | Store | Campaign | Dimension string | Metric string

text \<open>A metric written under its own name.\<close>

definition metric :: "string \<Rightarrow> string \<times> source" where
  "metric k = (k, Metric k)"

text \<open>The fields of the object literal each script pushes, in the literal's order.\<close>

fun columns :: "report \<Rightarrow> (string \<times> source) list" where
  "columns ProductGmvMaxCampaignDaily =
     [(''advertiser_id'', Advertiser), (''store_id'', Store),
      (''stat_time_day'', Dimension ''stat_time_day''),
      (''campaign_id'', Dimension ''campaign_id'')]
     @ map metric
        [''operation_status'', ''campaign_name'', ''schedule_type'', ''schedule_start_time'',
         ''schedule_end_time'', ''target_roi_budget'', ''bid_type'', ''max_delivery_budget'',
         ''roas_bid'', ''cost'', ''net_cost'', ''orders'', ''cost_per_order'',
         ''gross_revenue'', ''roi'']"
| "columns ProductGmvMaxCampaignHourly =
     [(''advertiser_id'', Advertiser), (''store_id'', Store),
      (''stat_time_hour'', Dimension ''stat_time_hour''),
      (''campaign_id'', Dimension ''campaign_id'')]
     @ map metric
        [''operation_status'', ''campaign_name'', ''schedule_type'', ''schedule_start_time'',
         ''schedule_end_time'', ''target_roi_budget'', ''bid_type'', ''max_delivery_budget'',
         ''roas_bid'', ''cost'', ''net_cost'', ''orders'', ''cost_per_order'',
         ''gross_revenue'', ''roi'']"
| "columns ProductGmvMaxCreativeStatuses =
     [(''advertiser_id'', Advertiser), (''store_id'', Store),
      (''campaign_id'', Dimension ''campaign_id''),
      (''item_group_id'', Dimension ''item_group_id''),
      (''item_id'', Dimension ''item_id'')]
     @ map metric
        [''creative_delivery_status'', ''cost'', ''orders'', ''cost_per_order'',
         ''gross_revenue'', ''roi'', ''product_impressions'', ''product_clicks'',
         ''product_click_rate'', ''ad_click_rate'', ''ad_conversion_rate'',
         ''ad_video_view_rate_2s'', ''ad_video_view_rate_6s'', ''ad_video_view_rate_p25'',
         ''ad_video_view_rate_p50'', ''ad_video_view_rate_p75'', ''ad_video_view_rate_p100'']"
| "columns LiveGmvMaxCampaignHourly =
     [(''advertiser_id'', Advertiser), (''store_id'', Store),
      (''stat_time_hour'', Dimension ''stat_time_hour''),
      (''campaign_id'', Dimension ''campaign_id'')]
     @ map metric
        [''operation_status'', ''campaign_name'', ''tt_account_name'',
         ''tt_account_profile_image_url'', ''identity_id'', ''schedule_type'',
         ''schedule_start_time'', ''schedule_end_time'', ''bid_type'', ''target_roi_budget'',
         ''max_delivery_budget'', ''roas_bid'', ''cost'', ''net_cost'', ''orders'',
         ''cost_per_order'', ''gross_revenue'', ''roi'', ''live_views'', ''cost_per_live_view'']
     @ [(''live_10s_views'', Metric ''10_second_live_views''),
        (''cost_per_10s_live_view'', Metric ''cost_per_10_second_live_view''),
        (''live_follows'', Metric ''live_follows'')]"
| "columns ProductGmvMaxProductDaily =
     [(''advertiser_id'', Advertiser), (''store_id'', Store), (''campaign_id'', Campaign),
      (''stat_time_day'', Dimension ''stat_time_day''),
      (''item_group_id'', Dimension ''item_group_id'')]
     @ map metric
        [''product_name'', ''product_image_url'', ''product_status'', ''bid_type'', ''cost'',
         ''orders'', ''cost_per_order'', ''gross_revenue'', ''roi'']"
| "columns LiveGmvMaxCampaignDaily_SinceJune1_Simple =
     [(''advertiser_id'', Advertiser), (''store_id'', Store),
      (''stat_time_day'', Dimension ''stat_time_day''),
      (''campaign_id'', Dimension ''campaign_id'')]
     @ map metric
        [''operation_status'', ''campaign_name'', ''tt_account_name'',
         ''tt_account_profile_image_url'', ''identity_id'', ''schedule_type'',
         ''schedule_start_time'', ''schedule_end_time'', ''bid_type'', ''target_roi_budget'',
         ''max_delivery_budget'', ''roas_bid'', ''cost'', ''net_cost'', ''orders'',
         ''cost_per_order'', ''gross_revenue'', ''roi'', ''live_views'', ''cost_per_live_view'']
     @ [(''live_10s_views'', Metric ''10_second_live_views''),
        (''cost_per_10s_live_view'', Metric ''cost_per_10_second_live_view''),
        (''live_follows'', Metric ''live_follows'')]"

text \<open>
  The column list each script passes to \<open>writeRowsToSheet_\<close>: in every script it names the
  fields of the row literal, in the literal's order.
\<close>

definition headerOrder :: "report \<Rightarrow> string list" where
  "headerOrder R = map fst (columns R)"

text \<open>One field of the row, from \<open>d = item.dimensions || {}\<close> and \<open>m = item.metrics || {}\<close>.\<close>

fun cell :: "config \<Rightarrow> jsval \<Rightarrow> jsval \<Rightarrow> source \<Rightarrow> jsval" where
  "cell cfg d m Advertiser = JStr (advertiser_id cfg)"
| "cell cfg d m Store = JStr (store_id cfg)"
| "cell cfg d m Campaign = JStr (campaign_id cfg)"
| "cell cfg d m (Dimension k) = or_else (getProp d k) (JStr [])"
| "cell cfg d m (Metric k) = or_else (getProp m k) (JStr [])"

text \<open>\<open>item.name || {}\<close> for an item that is neither \<open>null\<close> nor \<open>undefined\<close>.\<close>

definition subObject :: "jsval \<Rightarrow> string \<Rightarrow> jsval" where
  "subObject item name = or_else (getProp item name) (JObj [])"

text \<open>The row pushed for one item of the list that is neither \<open>null\<close> nor \<open>undefined\<close>.\<close>

definition flattenItem :: "report \<Rightarrow> config \<Rightarrow> jsval \<Rightarrow> obj" where
  "flattenItem R cfg item =
     (let d = subObject item ''dimensions'';
          m = subObject item ''metrics''
      in map (\<lambda>(c, s). (c, cell cfg d m s)) (columns R))"

text \<open>
  \<open>list.forEach(item => allRows.push(...))\<close>: reading \<open>item.dimensions\<close> of an item that is
  \<open>null\<close> throws, after the rows of the items before it were pushed; a list that is not an
  array has no \<open>forEach\<close>.
\<close>

fun pushItems :: "report \<Rightarrow> config \<Rightarrow> jsval list \<Rightarrow> obj list \<Rightarrow> exn option \<times> obj list" where
  "pushItems R cfg [] rows = (None, rows)"
| "pushItems R cfg (item # items) rows =
     (if nullish item then (Some (TypeError ''dimensions''), rows)
      else pushItems R cfg items (rows @ [flattenItem R cfg item]))"

fun forEachItem :: "report \<Rightarrow> config \<Rightarrow> jsval \<Rightarrow> obj list \<Rightarrow> exn option \<times> obj list" where
  "forEachItem R cfg (JArr items) rows = pushItems R cfg items rows"
| "forEachItem R cfg v rows = (Some (TypeError ''forEach''), rows)"

text \<open>\<open>Number(pageInfo.total_page || 1)\<close> with \<open>pageInfo = data.page_info || {}\<close>.\<close>

definition totalPage :: "engine \<Rightarrow> jsval \<Rightarrow> jsnum" where
  "totalPage E data =
     Number E (or_else (getProp (or_else (getProp data ''page_info'') (JObj [])) ''total_page'')
                 (JNum (Fin 1)))"

section \<open>Pagination\<close>

text \<open>
  The accumulators of a run, with the calls made so far (a record of the model's, in call
  order). The single-query scripts keep the first totals object; the batch script keeps a
  running sum.
\<close>

record run_state =
  allRows :: "obj list"
  requests :: "request list"

record single_state = run_state +
  totalMetrics :: jsval

datatype outcome = Finished | Threw exn | OutOfFuel

text \<open>
  The \<open>while (true)\<close> loop of the five single-query scripts. Nothing bounds the loop in the
  source; the model gives it fuel, one unit for every call, and \<open>OutOfFuel\<close> says that the
  loop was still running when the fuel ran out.
\<close>

fun fetchAll ::
  "engine \<Rightarrow> report \<Rightarrow> config \<Rightarrow> api \<Rightarrow> nat \<Rightarrow> nat \<Rightarrow> single_state \<Rightarrow> outcome \<times> single_state"
where
  "fetchAll E R cfg fetch 0 page st = (OutOfFuel, st)"
| "fetchAll E R cfg fetch (Suc fuel) page st =
     (let st1 = st\<lparr>requests := requests st @ [params R cfg page]\<rparr>
      in case fetchBody E R fetch (params R cfg page) of
           Inl err \<Rightarrow> (Threw err, st1)
         | Inr body \<Rightarrow>
             (let data = or_else (getProp body ''data'') (JObj []);
                  list = or_else (getProp data ''list'') (JArr []);
                  st2 = (if enable_total_metrics cfg \<and> truthy (getProp body ''total_metrics'')
                            \<and> \<not> truthy (totalMetrics st1)
                         then st1\<lparr>totalMetrics := getProp body ''total_metrics''\<rparr>
                         else st1)
              in case forEachItem R cfg list (allRows st2) of
                   (Some err, rows) \<Rightarrow> (Threw err, st2\<lparr>allRows := rows\<rparr>)
                 | (None, rows) \<Rightarrow>
                     if page_ge page (totalPage E data)
                     then (Finished, st2\<lparr>allRows := rows\<rparr>)
                     else fetchAll E R cfg fetch fuel (page + 1) (st2\<lparr>allRows := rows\<rparr>)))"

record live_state = run_state +
  totalsAgg :: obj

text \<open>
  The \<open>while (true)\<close> loop of the batch script for one window and one pair: every page that
  carries a totals object is merged into \<open>totalsAgg\<close>.
\<close>

fun fetchSlice ::
  "engine \<Rightarrow> config \<Rightarrow> api \<Rightarrow> nat \<Rightarrow> nat \<Rightarrow> live_state \<Rightarrow> outcome \<times> live_state"
where
  "fetchSlice E cfg fetch 0 page st = (OutOfFuel, st)"
| "fetchSlice E cfg fetch (Suc fuel) page st =
     (let R = LiveGmvMaxCampaignDaily_SinceJune1_Simple;
          st1 = st\<lparr>requests := requests st @ [params R cfg page]\<rparr>
      in case fetchBody E R fetch (params R cfg page) of
           Inl err \<Rightarrow> (Threw err, st1)
         | Inr body \<Rightarrow>
             (let st2 = (if truthy (getProp body ''total_metrics'')
                         then st1\<lparr>totalsAgg :=
                                   sumTotals E (totalsAgg st1) (getProp body ''total_metrics'')\<rparr>
                         else st1);
                  data = or_else (getProp body ''data'') (JObj []);
                  list = or_else (getProp data ''list'') (JArr [])
              in case forEachItem R cfg list (allRows st2) of
                   (Some err, rows) \<Rightarrow> (Threw err, st2\<lparr>allRows := rows\<rparr>)
                 | (None, rows) \<Rightarrow>
                     if page_ge page (totalPage E data)
                     then (Finished, st2\<lparr>allRows := rows\<rparr>)
                     else fetchSlice E cfg fetch fuel (page + 1) (st2\<lparr>allRows := rows\<rparr>)))"

section \<open>Sheets\<close>

text \<open>
  A sheet is the list of its rows from the top, a row the list of its cells from the left;
  a spreadsheet maps the names of its sheets to them. A cell holding the empty string is a
  blank cell. The scripts write whole rows from the first column, and only to rows that
  are blank.
\<close>

type_synonym sheet = "jsval list list"

type_synonym spreadsheet = "string \<Rightarrow> sheet option"

text \<open>\<open>ss.getSheetByName(name) || ss.insertSheet(name)\<close>: a new sheet is blank.\<close>

definition getSheet :: "spreadsheet \<Rightarrow> string \<Rightarrow> sheet" where
  "getSheet ss name = (case ss name of None \<Rightarrow> [] | Some sh \<Rightarrow> sh)"

definition clearContents :: "sheet \<Rightarrow> sheet" where
  "clearContents sh = []"

definition blankCell :: "jsval \<Rightarrow> bool" where
  "blankCell c = (c = JStr [] \<or> nullish c)"

text \<open>\<open>sh.getLastRow()\<close>: the position of the last row that has content.\<close>

definition getLastRow :: "sheet \<Rightarrow> nat" where
  "getLastRow sh = length (dropWhile (list_all blankCell) (rev sh))"

text \<open>\<open>sh.getRange(row, 1, n, w).setValues(vals)\<close> for the \<open>n\<close> rows \<open>vals\<close>; rows count from 1.\<close>

definition setValues :: "nat \<Rightarrow> jsval list list \<Rightarrow> sheet \<Rightarrow> sheet" where
  "setValues row vals sh =
     (let padded = sh @ replicate (row - 1 - length sh) []
      in take (row - 1) padded @ vals @ drop (row - 1 + length vals) padded)"

text \<open>\<open>sh.appendRow(r)\<close>: the row goes below the last row that has content.\<close>

definition appendRow :: "jsval list \<Rightarrow> sheet \<Rightarrow> sheet" where
  "appendRow r sh = take (getLastRow sh) sh @ [r]"

text \<open>\<open>a ?? b\<close>.\<close>

definition coalesce :: "jsval \<Rightarrow> jsval \<Rightarrow> jsval" where
  "coalesce a b = (if nullish a then b else a)"

text \<open>
  \<open>writeRowsToSheet_\<close> of the five single-query scripts. A range of no columns is refused by
  the sheet service, after the sheet was cleared; the column lists of the scripts are
  constants and not empty.
\<close>

definition writeRowsToSheet ::
  "string \<Rightarrow> obj list \<Rightarrow> string list \<Rightarrow> spreadsheet \<Rightarrow> exn option \<times> spreadsheet" where
  "writeRowsToSheet sheetName rows header ss =
     (let sh = clearContents (getSheet ss sheetName)
      in if header = [] then (Some (Exception ''getRange''), ss(sheetName \<mapsto> sh))
         else (let sh1 = setValues 1 [map JStr header] sh;
                   data = map (\<lambda>r. map (\<lambda>h. coalesce (lookup r h) (JStr [])) header) rows
               in (None, ss(sheetName \<mapsto> (if length data > 0 then setValues 2 data sh1 else sh1)))))"

text \<open>\<open>writeRowsToSheet_\<close> of the batch script.\<close>

definition writeRowsToSheet_live ::
  "string \<Rightarrow> obj list \<Rightarrow> string list \<Rightarrow> spreadsheet \<Rightarrow> exn option \<times> spreadsheet" where
  "writeRowsToSheet_live sheetName rows cols ss =
     (let sh = clearContents (getSheet ss sheetName)
      in if cols = [] then (Some (Exception ''getRange''), ss(sheetName \<mapsto> sh))
         else (let sh1 = setValues 1 [map JStr cols] sh
               in if length rows = 0 then (None, ss(sheetName \<mapsto> sh1))
                  else (None, ss(sheetName \<mapsto>
                          setValues 2
                            (map (\<lambda>r. map (\<lambda>c. if lookup r c \<noteq> JUndefined then lookup r c
                                                  else JStr []) cols) rows)
                            sh1))))"

text \<open>\<open>writeTotalsSheet_\<close>: the keys, then the values; no keys make a range of no columns.\<close>

definition writeTotalsSheet :: "string \<Rightarrow> jsval \<Rightarrow> spreadsheet \<Rightarrow> exn option \<times> spreadsheet" where
  "writeTotalsSheet sheetName totals ss =
     (let sh = clearContents (getSheet ss sheetName);
          keys = objectKeys totals
      in if keys = [] then (Some (Exception ''getRange''), ss(sheetName \<mapsto> sh))
         else (None, ss(sheetName \<mapsto>
                 setValues 2 [map (getProp totals) keys] (setValues 1 [map JStr keys] sh))))"

text \<open>\<open>logErrorRow_\<close>: the header on first use, then one appended row.\<close>

definition errorKeys :: "string list" where
  "errorKeys = [''ts'', ''advertiser_id'', ''store_id'', ''window'', ''message'']"

definition logErrorRow :: "string \<Rightarrow> obj \<Rightarrow> spreadsheet \<Rightarrow> spreadsheet" where
  "logErrorRow sheetName ob ss =
     (let sh = getSheet ss sheetName;
          sh1 = (if getLastRow sh = 0 then setValues 1 [map JStr errorKeys] sh else sh)
      in ss(sheetName \<mapsto>
           appendRow (map (\<lambda>k. or_else (lookup ob k) (JStr [])) errorKeys) sh1))"

section \<open>The single-query scripts\<close>

definition msInDay :: int where
  "msInDay = 24 * 60 * 60 * 1000"

text \<open>
  \<open>Math.floor((end - start) / msInDay) + 1\<close> for the two dates parsed as UTC midnights;
  \<open>None\<close> is NaN, the count when a date is invalid. The difference of two time values and
  its quotient are computed on integers, as the doubles do for dates less than some
  hundred thousand years apart.
\<close>

definition dayCount :: "engine \<Rightarrow> string \<Rightarrow> string \<Rightarrow> int option" where
  "dayCount E startDateStr endDateStr =
     (case (dateParse E (startDateStr @ ''T00:00:00Z''), dateParse E (endDateStr @ ''T00:00:00Z'')) of
        (Some start, Some endT) \<Rightarrow> Some ((endT - start) div msInDay + 1)
      | _ \<Rightarrow> None)"

text \<open>The sign \<open>\<le>\<close> of the message, in UTF-8.\<close>

definition lesseq :: string where
  "lesseq = [CHR 0xE2, CHR 0x89, CHR 0xA4]"

text \<open>\<open>validateDailyRange_\<close>: \<open>days > 30\<close> is false for NaN.\<close>

definition validateDailyRange :: "engine \<Rightarrow> string \<Rightarrow> string \<Rightarrow> exn + unit" where
  "validateDailyRange E startDateStr endDateStr =
     (case dayCount E startDateStr endDateStr of
        Some days \<Rightarrow>
          if days > 30
          then Inl (Error (''Daily breakdown window must be '' @ lesseq
                           @ '' 30 days when using stat_time_day.''))
          else Inr ()
      | None \<Rightarrow> Inr ())"

text \<open>\<open>validateHourlyRange_\<close> of the two hourly scripts.\<close>

fun validateHourlyRange :: "report \<Rightarrow> string \<Rightarrow> string \<Rightarrow> exn + unit" where
  "validateHourlyRange LiveGmvMaxCampaignHourly startDateStr endDateStr =
     (if startDateStr \<noteq> endDateStr
      then Inl (Error ''Hourly breakdown requires start_date == end_date (one day).'')
      else Inr ())"
| "validateHourlyRange R startDateStr endDateStr =
     (if startDateStr \<noteq> endDateStr
      then Inl (Error ''Hourly breakdown requires start_date == end_date (one calendar day).'')
      else Inr ())"

text \<open>The check of the date range each script makes first, if any.\<close>

fun validateRange :: "engine \<Rightarrow> report \<Rightarrow> config \<Rightarrow> exn + unit" where
  "validateRange E ProductGmvMaxCampaignDaily cfg =
     validateDailyRange E (start_date cfg) (end_date cfg)"
| "validateRange E ProductGmvMaxProductDaily cfg =
     validateDailyRange E (start_date cfg) (end_date cfg)"
| "validateRange E ProductGmvMaxCampaignHourly cfg =
     validateHourlyRange ProductGmvMaxCampaignHourly (start_date cfg) (end_date cfg)"
| "validateRange E LiveGmvMaxCampaignHourly cfg =
     validateHourlyRange LiveGmvMaxCampaignHourly (start_date cfg) (end_date cfg)"
| "validateRange E R cfg = Inr ()"

text \<open>\<open>getAccessToken_\<close>: the script property, \<open>None\<close> when it is not set.\<close>

definition getAccessToken :: "string option \<Rightarrow> exn + string" where
  "getAccessToken token =
     (case token of
        None \<Rightarrow> Inl (Error ''Missing TT_ACCESS_TOKEN in Script Properties.'')
      | Some t \<Rightarrow>
          if t = [] then Inl (Error ''Missing TT_ACCESS_TOKEN in Script Properties.'')
          else Inr t)"

fun sheetName :: "report \<Rightarrow> string" where
  "sheetName ProductGmvMaxCampaignDaily = ''GMVMax_Product_Campaign_Daily''"
| "sheetName ProductGmvMaxCampaignHourly = ''GMVMax_Product_Campaign_Hourly''"
| "sheetName ProductGmvMaxCreativeStatuses = ''GMVMax_Product_Creative_Statuses''"
| "sheetName LiveGmvMaxCampaignHourly = ''GMVMax_LIVE_Campaign_Hourly''"
| "sheetName ProductGmvMaxProductDaily = ''GMVMax_Product_ProductLevel_Daily''"
| "sheetName LiveGmvMaxCampaignDaily_SinceJune1_Simple =
     ''GMVMax_LIVE_Campaign_Daily_Since_2025-06-01''"

fun totalsSheetName :: "report \<Rightarrow> string" where
  "totalsSheetName LiveGmvMaxCampaignDaily_SinceJune1_Simple =
     ''GMVMax_LIVE_Campaign_Daily_Totals_Since_2025-06-01''"
| "totalsSheetName R = sheetName R @ ''_Totals''"

text \<open>
  A single-query script from the configuration row on: the range check, the access token
  (a header of every call), the pages, the data sheet and the totals sheet. An error
  leaves the spreadsheet as it was at that point.
\<close>

definition runReport ::
  "engine \<Rightarrow> report \<Rightarrow> config \<Rightarrow> string option \<Rightarrow> api \<Rightarrow> nat \<Rightarrow> spreadsheet
     \<Rightarrow> outcome \<times> single_state \<times> spreadsheet" where
  "runReport E R cfg token fetch fuel ss =
     (let st0 = \<lparr>allRows = [], requests = [], totalMetrics = JNull\<rparr>
      in case validateRange E R cfg of
           Inl err \<Rightarrow> (Threw err, st0, ss)
         | Inr _ \<Rightarrow>
             (case getAccessToken token of
                Inl err \<Rightarrow> (Threw err, st0, ss)
              | Inr _ \<Rightarrow>
                  (case fetchAll E R cfg fetch fuel 1 st0 of
                     (Finished, st) \<Rightarrow>
                       (case writeRowsToSheet (sheetName R) (allRows st) (headerOrder R) ss of
                          (Some err, ss1) \<Rightarrow> (Threw err, st, ss1)
                        | (None, ss1) \<Rightarrow>
                            if enable_total_metrics cfg \<and> truthy (totalMetrics st)
                            then (case writeTotalsSheet (totalsSheetName R) (totalMetrics st) ss1 of
                                    (Some err, ss2) \<Rightarrow> (Threw err, st, ss2)
                                  | (None, ss2) \<Rightarrow> (Finished, st, ss2))
                            else (Finished, st, ss1))
                   | (out, st) \<Rightarrow> (out, st, ss))))"

section \<open>The batch script\<close>


text \<open>\<open>err.message\<close>, and \<open>String(err && err.message || err)\<close>: an error with an empty message
  prints as its name.\<close>

fun message :: "engine \<Rightarrow> exn \<Rightarrow> string" where
  "message E (Error m) = m"
| "message E err = nativeMessage E err"














fun threw :: "outcome \<Rightarrow> bool" where
  "threw (Threw err) = True"
| "threw out = False"

section \<open>Pages that are served\<close>

text \<open>
  The call for page \<open>p\<close> of a query is answered well when it yields a body (status 200,
  JSON, code 0) whose list is an array of items, none of them \<open>null\<close>, and whose page
  information reports \<open>N\<close> pages; \<open>rowsOfPage\<close> are the rows of that page.
\<close>

definition goodPage :: "engine \<Rightarrow> report \<Rightarrow> config \<Rightarrow> api \<Rightarrow> nat \<Rightarrow> nat \<Rightarrow> bool" where
  "goodPage E R cfg fetch N p =
     (case fetchBody E R fetch (params R cfg p) of
        Inl err \<Rightarrow> False
      | Inr body \<Rightarrow>
          (let data = or_else (getProp body ''data'') (JObj [])
           in totalPage E data = Fin (of_nat N)
              \<and> (case or_else (getProp data ''list'') (JArr []) of
                    JArr items \<Rightarrow> list_all (\<lambda>item. \<not> nullish item) items
                  | _ \<Rightarrow> False)))"

definition rowsOfPage :: "engine \<Rightarrow> report \<Rightarrow> config \<Rightarrow> api \<Rightarrow> nat \<Rightarrow> obj list" where
  "rowsOfPage E R cfg fetch p =
     (case fetchBody E R fetch (params R cfg p) of
        Inl err \<Rightarrow> []
      | Inr body \<Rightarrow>
          (case or_else (getProp (or_else (getProp body ''data'') (JObj [])) ''list'') (JArr []) of
             JArr items \<Rightarrow> map (flattenItem R cfg) items
           | _ \<Rightarrow> []))"

text \<open>The totals object that the call for page \<open>p\<close> carries, \<open>undefined\<close> if none.\<close>

definition totalsOfPage :: "engine \<Rightarrow> report \<Rightarrow> config \<Rightarrow> api \<Rightarrow> nat \<Rightarrow> jsval" where
  "totalsOfPage E R cfg fetch p =
     (case fetchBody E R fetch (params R cfg p) of
        Inl err \<Rightarrow> JUndefined
      | Inr body \<Rightarrow> getProp body ''total_metrics'')"

text \<open>The first of a sequence of totals objects that counts as true, if any.\<close>

definition firstTotals :: "jsval list \<Rightarrow> jsval \<Rightarrow> jsval" where
  "firstTotals ts dflt = (case List.find truthy ts of Some t \<Rightarrow> t | None \<Rightarrow> dflt)"

text \<open>The sum of a sequence of totals objects, one merge for each that counts as true.\<close>

definition mergedTotals :: "engine \<Rightarrow> obj \<Rightarrow> jsval list \<Rightarrow> obj" where
  "mergedTotals E agg ts = foldl (\<lambda>a t. if truthy t then sumTotals E a t else a) agg ts"

section \<open>An engine for examples\<close>

text \<open>
  A small engine on which examples can be evaluated. It reads a number off the decimal
  digits a string starts with, prints a natural number in decimal digits, rounds nothing,
  and knows three dates; on the strings and numbers of the examples below it agrees with
  a JavaScript engine.
\<close>

definition isDigit :: "char \<Rightarrow> bool" where
  "isDigit c = (48 \<le> (of_char c :: nat) \<and> (of_char c :: nat) \<le> 57)"

definition digitsValue :: "string \<Rightarrow> nat" where
  "digitsValue ds = foldl (\<lambda>n c. 10 * n + ((of_char c :: nat) - 48)) 0 ds"

definition exampleParseFloat :: "string \<Rightarrow> jsnum" where
  "exampleParseFloat s =
     (if takeWhile isDigit s = [] then NaN
      else Fin (of_nat (digitsValue (takeWhile isDigit s))))"

function digitsOf :: "nat \<Rightarrow> string" where
  "digitsOf n =
     (if n < 10 then [''0123456789'' ! n]
      else digitsOf (n div 10) @ [''0123456789'' ! (n mod 10)])"
  by pat_completeness auto
termination
  by (relation "measure (\<lambda>n. n)") auto

fun exampleToString :: "jsval \<Rightarrow> string" where
  "exampleToString (JStr s) = s"
| "exampleToString (JNum (Fin q)) =
     (if q = of_int \<lfloor>q\<rfloor> \<and> 0 \<le> q then digitsOf (nat \<lfloor>q\<rfloor>) else ''number'')"
| "exampleToString (JNum n) = ''number''"
| "exampleToString JUndefined = ''undefined''"
| "exampleToString JNull = ''null''"
| "exampleToString (JBool b) = (if b then ''true'' else ''false'')"
| "exampleToString (JArr xs) = ''array''"
| "exampleToString (JObj kvs) = ''[object Object]''"

definition exampleDateParse :: "string \<Rightarrow> int option" where
  "exampleDateParse s =
     (if s = ''2025-06-01T00:00:00Z'' then Some (20240 * 86400000)
      else if s = ''2025-06-30T00:00:00Z'' then Some (20269 * 86400000)
      else if s = ''2025-07-05T00:00:00Z'' then Some (20274 * 86400000)
      else None)"

definition exampleEngine :: engine where
  "exampleEngine =
     \<lparr> parseFloat = exampleParseFloat,
       numberOfText = (\<lambda>v. case v of JStr s \<Rightarrow> exampleParseFloat s | _ \<Rightarrow> NaN),
       toString = exampleToString,
       roundDouble = Fin,
       dateParse = exampleDateParse,
       nativeMessage = (\<lambda>err. ''engine error'') \<rparr>"

text \<open>
  An API for examples. Every query has three pages of two rows each, and every page carries
  the totals object of the query; the second row has a cost of zero and no order count.
  Calls for the advertiser \<open>A\<close> are answered with status 500. The text of a good answer is
  not spelled out.
\<close>

definition exampleItem :: jsval where
  "exampleItem =
     JObj [(''dimensions'',
              JObj [(''campaign_id'', JStr ''c1''), (''stat_time_day'', JStr ''2025-06-01'')]),
           (''metrics'', JObj [(''cost'', JStr ''10''), (''orders'', JStr ''2'')])]"

definition exampleItemZero :: jsval where
  "exampleItemZero =
     JObj [(''dimensions'',
              JObj [(''campaign_id'', JStr ''c2''), (''stat_time_day'', JStr ''2025-06-01'')]),
           (''metrics'', JObj [(''cost'', JNum (Fin 0))])]"

definition exampleBody :: jsval where
  "exampleBody =
     JObj [(''code'', JNum (Fin 0)),
           (''message'', JStr ''OK''),
           (''data'',
              JObj [(''list'', JArr [exampleItem, exampleItemZero]),
                    (''page_info'', JObj [(''total_page'', JNum (Fin 3))])]),
           (''total_metrics'', JObj [(''cost'', JStr ''10'')])]"

definition exampleApi :: api where
  "exampleApi req =
     (if rq_advertiser_id req = ''A''
      then Inr \<lparr>getResponseCode = 500, getContentText = ''down'',
                parsed = Inl (SyntaxError ''JSON.parse'')\<rparr>
      else Inr \<lparr>getResponseCode = 200, getContentText = ''(a body)'',
                parsed = Inr exampleBody\<rparr>)"

definition exampleConfig :: config where
  "exampleConfig =
     \<lparr> advertiser_id = ''B'', store_id = ''S'',
       start_date = ''2025-07-05'', end_date = ''2025-06-01'',
       campaign_id = ''c1'', page_size = JUndefined, enable_total_metrics = True \<rparr>"

section \<open>Properties of the window planner\<close>

declare buildDailyWindows_loop.simps [simp del] specWindows.simps [simp del]

text \<open>The windows of the specification partition the range.\<close>

lemma windows_unfold:
  "specWindows a e =
     (if a \<le> e then (a, min e (a + 29)) # specWindows (min e (a + 29) + 1) e else [])"
  by (rule specWindows.simps)

lemma windows_induct [case_names step]:
  assumes "\<And>a. (a \<le> e \<Longrightarrow> P (min e (a + 29) + 1)) \<Longrightarrow> P a"
  shows "P (a::int)"
proof (induction "nat (e + 1 - a)" arbitrary: a rule: less_induct)
  case less
  show ?case
  proof (rule assms)
    assume "a \<le> e"
    then have "nat (e + 1 - (min e (a + 29) + 1)) < nat (e + 1 - a)" by (simp add: min_def)
    then show "P (min e (a + 29) + 1)" by (rule less)
  qed
qed

lemma windows_nonempty: "a \<le> e \<Longrightarrow> specWindows a e \<noteq> []"
  by (subst windows_unfold) simp

lemma windows_hd: "a \<le> e \<Longrightarrow> fst (hd (specWindows a e)) = a"
  by (subst windows_unfold) simp

lemma windows_contiguous: "contiguous (specWindows a e)"
proof (induction a rule: windows_induct[of e])
  case (step a)
  show ?case
  proof (cases "a \<le> e")
    case True
    let ?n = "min e (a + 29) + 1"
    show ?thesis
    proof (cases "?n \<le> e")
      case False
      then have "specWindows ?n e = []" by (subst windows_unfold) simp
      with True show ?thesis by (subst windows_unfold) simp
    next
      case n: True
      then obtain v vs where v: "specWindows ?n e = v # vs" "fst v = ?n"
        using windows_nonempty[OF n] windows_hd[OF n] by (cases "specWindows ?n e") auto
      with True step show ?thesis by (subst windows_unfold) simp
    qed
  next
    case False
    then show ?thesis by (subst windows_unfold) simp
  qed
qed

lemma windows_each: "w \<in> set (specWindows a e) \<Longrightarrow> a \<le> fst w \<and> fst w \<le> snd w \<and> snd w \<le> e \<and> snd w - fst w + 1 \<le> 30"
proof (induction a rule: windows_induct[of e])
  case (step a)
  show ?case
  proof (cases "a \<le> e")
    case True
    from step.prems have "w = (a, min e (a + 29)) \<or> w \<in> set (specWindows (min e (a + 29) + 1) e)"
      by (subst (asm) windows_unfold) (simp add: True)
    then show ?thesis
    proof
      assume "w = (a, min e (a + 29))" with True show ?thesis by (simp add: min_def)
    next
      assume "w \<in> set (specWindows (min e (a + 29) + 1) e)"
      from step.IH[OF True this] show ?thesis by (simp add: min_def split: if_splits)
    qed
  next
    case False
    with step.prems show ?thesis by (subst (asm) windows_unfold) simp
  qed
qed

lemma windows_covered: "covered (specWindows a e) = {a .. e}"
proof (induction a rule: windows_induct[of e])
  case (step a)
  show ?case
  proof (cases "a \<le> e")
    case True
    have "covered (specWindows a e) = {a .. min e (a + 29)} \<union> covered (specWindows (min e (a + 29) + 1) e)"
      by (subst windows_unfold) (simp add: True covered_def)
    also have "\<dots> = {a .. min e (a + 29)} \<union> {min e (a + 29) + 1 .. e}"
      using step[OF True] by simp
    also have "\<dots> = {a .. e}" using True by (auto simp: min_def)
    finally show ?thesis .
  next
    case False
    then show ?thesis by (subst windows_unfold) (simp add: covered_def)
  qed
qed

lemma windows_last: "a \<le> e \<Longrightarrow> snd (last (specWindows a e)) = e"
proof (induction a rule: windows_induct[of e])
  case (step a)
  let ?n = "min e (a + 29) + 1"
  show ?case
  proof (cases "?n \<le> e")
    case True
    with step windows_nonempty[OF True] show ?thesis by (subst windows_unfold) simp
  next
    case False
    then have "specWindows ?n e = []" by (subst windows_unfold) simp
    moreover from False have "min e (a + 29) = e" by (simp add: min_def split: if_splits)
    ultimately show ?thesis using step.prems by (subst windows_unfold) simp
  qed
qed

lemma windows_sorted: "i < j \<Longrightarrow> j < length (specWindows a e) \<Longrightarrow>
   snd (specWindows a e ! i) < fst (specWindows a e ! j)"
proof (induction a arbitrary: i j rule: windows_induct[of e])
  case (step a)
  show ?case
  proof (cases "a \<le> e")
    case True
    let ?n = "min e (a + 29) + 1"
    have u: "specWindows a e = (a, min e (a + 29)) # specWindows ?n e"
      by (subst windows_unfold) (simp add: True)
    obtain j' where j': "j = Suc j'" using step.prems(1) by (cases j) auto
    with step.prems u have j'l: "j' < length (specWindows ?n e)" by simp
    show ?thesis
    proof (cases i)
      case 0
      have "specWindows ?n e ! j' \<in> set (specWindows ?n e)" using j'l by simp
      from windows_each[OF this] show ?thesis by (simp add: u 0 j')
    next
      case (Suc i')
      with step.prems j' have "i' < j'" by simp
      from step.IH[OF True this j'l] show ?thesis by (simp add: u Suc j')
    qed
  next
    case False
    then have "specWindows a e = []" by (subst windows_unfold) simp
    with step.prems show ?thesis by simp
  qed
qed

lemma windows_single: "specWindows a a = [(a, a)]"
  by (subst windows_unfold, subst windows_unfold) simp

lemma specWindows_partition:
  assumes "startDay \<le> endDay"
  shows "specWindows startDay endDay \<noteq> []
    \<and> fst (hd (specWindows startDay endDay)) = startDay
    \<and> snd (last (specWindows startDay endDay)) = endDay
    \<and> contiguous (specWindows startDay endDay)
    \<and> (\<forall>w \<in> set (specWindows startDay endDay).
          fst w \<le> snd w \<and> snd w - fst w + 1 \<le> 30)
    \<and> (\<forall>i j. i < j \<and> j < length (specWindows startDay endDay) \<longrightarrow>
          snd (specWindows startDay endDay ! i)
            < fst (specWindows startDay endDay ! j))
    \<and> covered (specWindows startDay endDay) = {startDay .. endDay}
    \<and> (startDay = endDay \<longrightarrow> specWindows startDay endDay = [(startDay, startDay)])"
proof -
  have "\<forall>w \<in> set (specWindows startDay endDay).
          fst w \<le> snd w \<and> snd w - fst w + 1 \<le> 30"
    using windows_each by blast
  moreover have "\<forall>i j. i < j \<and> j < length (specWindows startDay endDay) \<longrightarrow>
          snd (specWindows startDay endDay ! i)
            < fst (specWindows startDay endDay ! j)"
    using windows_sorted by blast
  moreover have "startDay = endDay \<longrightarrow>
      specWindows startDay endDay = [(startDay, startDay)]"
    using windows_single by simp
  ultimately show ?thesis
    using assms windows_nonempty windows_hd windows_last windows_contiguous windows_covered
    by simp
qed

text \<open>
  Between two zones of fixed offsets, a day that begins in the script's zone is printed in
  \<open>tz\<close> as that day moved by the whole days in the difference of the offsets, rounded
  down: as the same day when the script's zone is \<open>tz\<close> or lies west of it, as the day
  before when it lies east of it.
\<close>

lemma dayOf_midnight:
  "dayOf (fixedOffset zt) (midnight (fixedOffset zs) d) = d + (zt - zs) div msDay"
proof -
  have "(d * msDay - zs + zt) = (zt - zs) + d * msDay" by simp
  then have "(d * msDay - zs + zt) div msDay = (zt - zs) div msDay + d"
    using div_mult_self1[of msDay "zt - zs" d] by (simp add: msDay_def)
  then show ?thesis by (simp add: fixedOffset_def)
qed

text \<open>So the planner returns the windows of the specification, every bound moved by
  that number of days.\<close>

lemma buildDailyWindows_fixed_zones:
  "buildDailyWindows (fixedOffset zs) a e (fixedOffset zt)
     = map (\<lambda>w. (fst w + (zt - zs) div msDay, snd w + (zt - zs) div msDay)) (specWindows a e)"
proof (induction a rule: windows_induct[of e])
  case (step a)
  let ?m = "midnight (fixedOffset zs)"
  have mid: "\<And>d. ?m d = d * msDay - zs" by (simp add: fixedOffset_def)
  have m: "min (?m e) (?m a + 29 * msDay) = ?m (min e (a + 29))"
    by (simp add: mid min_def msDay_def)
  have le: "(?m a \<le> ?m e) = (a \<le> e)" by (simp add: mid msDay_def)
  have nx: "?m (min e (a + 29)) + msDay = ?m (min e (a + 29) + 1)"
    by (simp add: mid algebra_simps)
  have u: "buildDailyWindows (fixedOffset zs) a e (fixedOffset zt) =
     (if a \<le> e
      then (a + (zt - zs) div msDay, min e (a + 29) + (zt - zs) div msDay)
           # buildDailyWindows (fixedOffset zs) (min e (a + 29) + 1) e (fixedOffset zt)
      else [])"
    unfolding buildDailyWindows_def
    by (subst buildDailyWindows_loop.simps) (simp only: m le nx Let_def dayOf_midnight)
  show ?case
    by (subst u, subst windows_unfold) (simp add: step)
qed

lemma buildDailyWindows_not_east:
  assumes "0 \<le> zt - zs" "zt - zs < msDay"
  shows "buildDailyWindows (fixedOffset zs) a e (fixedOffset zt) = specWindows a e"
proof -
  have "(zt - zs) div msDay = 0" using assms by simp
  then show ?thesis by (simp add: buildDailyWindows_fixed_zones)
qed

lemma buildDailyWindows_east:
  assumes "zt < zs" "zs - zt \<le> msDay"
  shows "buildDailyWindows (fixedOffset zs) a e (fixedOffset zt)
           = map (\<lambda>w. (fst w - 1, snd w - 1)) (specWindows a e)"
proof -
  have "zt - zs = (msDay - (zs - zt)) + (- 1) * msDay" by simp
  then have "(zt - zs) div msDay = (msDay - (zs - zt)) div msDay + (- 1)"
    using div_mult_self1[of msDay "msDay - (zs - zt)" "- 1"] by (simp add: msDay_def)
  moreover have "(msDay - (zs - zt)) div msDay = 0" using assms by simp
  ultimately have "(zt - zs) div msDay = - 1" by simp
  then show ?thesis by (simp add: buildDailyWindows_fixed_zones)
qed

text \<open>
  When the script's zone is \<open>tz\<close> or lies west of it, at fixed offsets less than a day
  apart, the planner partitions the range: for start \<le> end it returns a non-empty
  sequence of windows that begins at the start and ends at the end, in which each window
  starts the day after the previous one ends, each window spans at most 30 days, no two
  windows overlap, and the days covered are exactly the inclusive range; a single-day
  range gives the single window of that day.
\<close>

lemma buildDailyWindows_partition_not_east:
  assumes "0 \<le> zt - zs" "zt - zs < msDay" "startDay \<le> endDay"
  shows "buildDailyWindows (fixedOffset zs) startDay endDay (fixedOffset zt) \<noteq> []
    \<and> fst (hd (buildDailyWindows (fixedOffset zs) startDay endDay (fixedOffset zt))) = startDay
    \<and> snd (last (buildDailyWindows (fixedOffset zs) startDay endDay (fixedOffset zt))) = endDay
    \<and> contiguous (buildDailyWindows (fixedOffset zs) startDay endDay (fixedOffset zt))
    \<and> (\<forall>w \<in> set (buildDailyWindows (fixedOffset zs) startDay endDay (fixedOffset zt)).
          fst w \<le> snd w \<and> snd w - fst w + 1 \<le> 30)
    \<and> (\<forall>i j. i < j
          \<and> j < length (buildDailyWindows (fixedOffset zs) startDay endDay (fixedOffset zt)) \<longrightarrow>
          snd (buildDailyWindows (fixedOffset zs) startDay endDay (fixedOffset zt) ! i)
            < fst (buildDailyWindows (fixedOffset zs) startDay endDay (fixedOffset zt) ! j))
    \<and> covered (buildDailyWindows (fixedOffset zs) startDay endDay (fixedOffset zt))
        = {startDay .. endDay}
    \<and> (startDay = endDay \<longrightarrow>
          buildDailyWindows (fixedOffset zs) startDay endDay (fixedOffset zt)
            = [(startDay, startDay)])"
  unfolding buildDailyWindows_not_east[OF assms(1,2)]
  using assms(3) by (rule specWindows_partition)

text \<open>
  C2. The planner does not partition the range in every script zone. It reads the two
  dates in the script's zone and prints the bounds of the windows in \<open>tz\<close>, and in a
  script zone east of \<open>tz\<close> a day begins while \<open>tz\<close> is still on the day before. In a
  script that runs one hour east of Asia/Jakarta (at UTC+8, as Asia/Makassar or
  Asia/Singapore), the range 2025-06-01 .. 2025-07-05 (days 20240 .. 20274) gives the
  windows 2025-05-31 .. 2025-06-29 and 2025-06-30 .. 2025-07-04: they begin a day before
  the start, leave the last day out and so do not cover the range, and the single day
  2025-06-01 gives the window of 2025-05-31; the windows the specification describes
  for that range, and the ones the planner returns when the script runs in Asia/Jakarta
  itself, are 2025-06-01 .. 2025-06-30 and 2025-07-01 .. 2025-07-05.
\<close>

theorem buildDailyWindows_east_day_early:
  "buildDailyWindows (fixedOffset (8 * msHour)) 20240 20274 (fixedOffset (7 * msHour))
     = [(20239, 20268), (20269, 20273)]
   \<and> fst (hd (buildDailyWindows (fixedOffset (8 * msHour)) 20240 20274 (fixedOffset (7 * msHour))))
       \<noteq> 20240
   \<and> covered (buildDailyWindows (fixedOffset (8 * msHour)) 20240 20274 (fixedOffset (7 * msHour)))
       \<noteq> {20240 .. 20274}
   \<and> buildDailyWindows (fixedOffset (8 * msHour)) 20240 20240 (fixedOffset (7 * msHour))
       = [(20239, 20239)]
   \<and> specWindows 20240 20274 = [(20240, 20269), (20270, 20274)]
   \<and> buildDailyWindows (fixedOffset (7 * msHour)) 20240 20274 (fixedOffset (7 * msHour))
       = [(20240, 20269), (20270, 20274)]"
proof -
  have s: "specWindows 20240 20274 = [(20240, 20269), (20270, 20274)]"
    by (simp add: specWindows.simps)
  have s1: "specWindows 20240 20240 = [(20240, 20240)]"
    by (simp add: specWindows.simps)
  have e: "(7 * msHour - 8 * msHour) div msDay = - 1" "(7 * msHour - 7 * msHour) div msDay = 0"
    by (simp_all add: msHour_def msDay_def)
  have w: "buildDailyWindows (fixedOffset (8 * msHour)) 20240 20274 (fixedOffset (7 * msHour))
     = [(20239, 20268), (20269, 20273)]"
    unfolding buildDailyWindows_fixed_zones e s by simp
  have w1: "buildDailyWindows (fixedOffset (8 * msHour)) 20240 20240 (fixedOffset (7 * msHour))
     = [(20239, 20239)]"
    unfolding buildDailyWindows_fixed_zones e s1 by simp
  have w7: "buildDailyWindows (fixedOffset (7 * msHour)) 20240 20274 (fixedOffset (7 * msHour))
     = [(20240, 20269), (20270, 20274)]"
    unfolding buildDailyWindows_fixed_zones e s by simp
  have "(20274::int) \<notin> covered [(20239, 20268), (20269, 20273)]" by (simp add: covered_def)
  moreover have "(20274::int) \<in> {20240 .. 20274}" by simp
  ultimately have c: "covered [(20239, 20268), (20269, 20273)] \<noteq> {20240 .. 20274}" by metis
  show ?thesis
    unfolding w w1 w7 s
    using c by simp
qed

section \<open>Properties of the totals aggregator\<close>

text \<open>
  An assignment changes one key, and the step for one key of the new object leaves every
  other key as it was; the keys of an object are visited once each.
\<close>

lemma keys_assign: "fst ` set (assign out k v) = insert k (fst ` set out)"
proof (induction out)
  case Nil
  show ?case by simp
next
  case (Cons a out)
  obtain k' v' where a: "a = (k', v')" by (cases a)
  show ?case using Cons by (auto simp: a)
qed

lemma lookup_assign: "lookup (assign out k v) k' = (if k' = k then v else lookup out k')"
  by (induction out) (auto simp: lookup_def)

lemma has_key_assign: "has_key (assign out k v) k' = (k' = k \<or> has_key out k')"
  by (simp add: has_key_def keys_assign)

lemma lookup_sumTotals_key_other:
  "k' \<noteq> k \<Longrightarrow> lookup (sumTotals_key E add out k) k' = lookup out k'"
  by (simp add: sumTotals_key_def Let_def lookup_assign)

lemma has_key_sumTotals_key_other:
  "k' \<noteq> k \<Longrightarrow> has_key (sumTotals_key E add out k) k' = has_key out k'"
  by (simp add: sumTotals_key_def Let_def has_key_assign)

lemma fold_keys_other:
  "k' \<notin> set ks \<Longrightarrow>
     lookup (foldl (sumTotals_key E add) out ks) k' = lookup out k'
   \<and> has_key (foldl (sumTotals_key E add) out ks) k' = has_key out k'"
  by (induction ks arbitrary: out)
     (auto simp: lookup_sumTotals_key_other has_key_sumTotals_key_other)

lemma fold_keys_at:
  "distinct ks \<Longrightarrow> k \<in> set ks \<Longrightarrow>
     lookup (foldl (sumTotals_key E add) out ks) k = lookup (sumTotals_key E add out k) k
   \<and> has_key (foldl (sumTotals_key E add) out ks) k = has_key (sumTotals_key E add out k) k"
proof (induction ks arbitrary: out)
  case Nil
  then show ?case by simp
next
  case (Cons a ks)
  show ?case
  proof (cases "a = k")
    case True
    with Cons.prems have "k \<notin> set ks" by simp
    from fold_keys_other[OF this] True show ?thesis by simp
  next
    case False
    with Cons.prems have d: "distinct ks" and m: "k \<in> set ks" by auto
    from False have ka: "k \<noteq> a" by simp
    have "lookup (sumTotals_key E add (sumTotals_key E add out a) k) k
            = lookup (sumTotals_key E add out k) k
        \<and> has_key (sumTotals_key E add (sumTotals_key E add out a) k) k
            = has_key (sumTotals_key E add out k) k"
      unfolding sumTotals_key_def[of E add "sumTotals_key E add out a" k]
        sumTotals_key_def[of E add out k] Let_def
      using ka
      by (simp add: lookup_assign has_key_assign lookup_sumTotals_key_other
            has_key_sumTotals_key_other)
    with Cons.IH[OF d m, of "sumTotals_key E add out a"] show ?thesis by simp
  qed
qed

lemma has_key_lookup: "\<not> has_key out k \<Longrightarrow> lookup out k = JUndefined"
  by (simp add: has_key_def lookup_def map_of_eq_None_iff[symmetric])

lemma objectKeys_or_else: "objectKeys (or_else add (JObj [])) = objectKeys add"
  by (cases add) (auto simp: or_else_def)

lemma getProp_or_else: "k \<in> set (objectKeys add) \<Longrightarrow> getProp (or_else add (JObj [])) k = getProp add k"
  by (cases add) (auto simp: or_else_def)

lemma sumTotals_lookup:
  "lookup (sumTotals E agg add) k =
     (if k \<in> set (objectKeys add)
      then (if isFinite (num E (getProp add k))
            then JNum (js_add E (or_zero (num E (lookup agg k))) (num E (getProp add k)))
            else if has_key agg k then lookup agg k else getProp add k)
      else lookup agg k)"
proof (cases "k \<in> set (objectKeys add)")
  case True
  have d: "distinct (objectKeys add)" by (cases add) auto
  show ?thesis
    using fold_keys_at[OF d True, of E "or_else add (JObj [])" agg] True getProp_or_else[OF True]
    by (simp add: sumTotals_def objectKeys_or_else sumTotals_key_def Let_def lookup_assign)
next
  case False
  then show ?thesis
    using fold_keys_other[of k "objectKeys add" E "or_else add (JObj [])" agg]
    by (simp add: sumTotals_def objectKeys_or_else)
qed

lemma sumTotals_has_key:
  "has_key (sumTotals E agg add) k = (has_key agg k \<or> k \<in> set (objectKeys add))"
proof (cases "k \<in> set (objectKeys add)")
  case True
  have d: "distinct (objectKeys add)" by (cases add) auto
  show ?thesis
    using fold_keys_at[OF d True, of E "or_else add (JObj [])" agg] True
    by (simp add: sumTotals_def objectKeys_or_else sumTotals_key_def Let_def has_key_assign)
next
  case False
  then show ?thesis
    using fold_keys_other[of k "objectKeys add" E "or_else add (JObj [])" agg]
    by (simp add: sumTotals_def objectKeys_or_else)
qed

text \<open>
  The two merges of the examples, on any engine that reads and rounds the numbers involved
  as JavaScript does.
\<close>

lemma sumTotals_cost_orders:
  assumes "parseFloat E ''10'' = Fin 10" "parseFloat E ''2'' = Fin 2"
      "parseFloat E ''5'' = Fin 5" "parseFloat E ''3'' = Fin 3"
      "roundDouble E 10 = Fin 10" "roundDouble E 2 = Fin 2" "roundDouble E 15 = Fin 15" "roundDouble E 5 = Fin 5"
  shows "sumTotals E (sumTotals E [] (JObj [(''cost'', JStr ''10''), (''orders'', JStr ''2'')]))
            (JObj [(''cost'', JStr ''5''), (''orders'', JStr ''3'')])
         = [(''cost'', JNum (Fin 15)), (''orders'', JNum (Fin 5))]"
  using assms
  by (simp add: sumTotals_def sumTotals_key_def or_else_def lookup_def or_zero_def has_key_def)

lemma sumTotals_currency:
  assumes "parseFloat E ''USD'' = NaN" "parseFloat E ''EUR'' = NaN"
  shows "sumTotals E (sumTotals E [] (JObj [(''currency'', JStr ''USD'')]))
            (JObj [(''currency'', JStr ''EUR'')])
         = [(''currency'', JStr ''USD'')]"
  using assms
  by (simp add: sumTotals_def sumTotals_key_def or_else_def lookup_def or_zero_def has_key_def)

text \<open>
  The engine for examples reads digits and rounds nothing.
\<close>

lemma exampleEngine_parseFloat: "parseFloat exampleEngine ''10'' = Fin 10" "parseFloat exampleEngine ''2'' = Fin 2"
  "parseFloat exampleEngine ''5'' = Fin 5" "parseFloat exampleEngine ''3'' = Fin 3"
  "parseFloat exampleEngine ''n/a'' = NaN"
  "parseFloat exampleEngine ''USD'' = NaN" "parseFloat exampleEngine ''EUR'' = NaN"
  by (simp_all add: exampleEngine_def exampleParseFloat_def isDigit_def digitsValue_def)

lemma exampleEngine_roundDouble: "roundDouble exampleEngine q = Fin q"
  by (simp add: exampleEngine_def)

text \<open>
  C4. After a merge, a key of the new object whose value parses to a finite number holds
  the sum of that number and the accumulator's earlier number for the key, where an
  earlier value that is missing (or is no number) counts as zero; a key whose value does
  not parse keeps the accumulator's earlier value if the key was present and takes the new
  value unchanged if it was not; every other key is as before. Merging
  {cost: "10", orders: "2"} and then {cost: "5", orders: "3"} into the empty accumulator
  gives {cost: 15, orders: 5}, and merging {currency: "USD"} and then {currency: "EUR"}
  gives {currency: "USD"}.
\<close>

theorem sumTotals_merges:
  "lookup (sumTotals E agg add) k =
     (if k \<in> set (objectKeys add)
      then (if isFinite (num E (getProp add k))
            then JNum (js_add E (or_zero (num E (lookup agg k))) (num E (getProp add k)))
            else if has_key agg k then lookup agg k else getProp add k)
      else lookup agg k)
   \<and> (\<not> has_key agg k \<longrightarrow> or_zero (num E (lookup agg k)) = Fin 0)
   \<and> (parseFloat E ''10'' = Fin 10 \<and> parseFloat E ''2'' = Fin 2 \<and> parseFloat E ''5'' = Fin 5
       \<and> parseFloat E ''3'' = Fin 3 \<and> roundDouble E 10 = Fin 10 \<and> roundDouble E 2 = Fin 2
       \<and> roundDouble E 15 = Fin 15 \<and> roundDouble E 5 = Fin 5 \<longrightarrow>
       sumTotals E (sumTotals E [] (JObj [(''cost'', JStr ''10''), (''orders'', JStr ''2'')]))
         (JObj [(''cost'', JStr ''5''), (''orders'', JStr ''3'')])
       = [(''cost'', JNum (Fin 15)), (''orders'', JNum (Fin 5))])
   \<and> (parseFloat E ''USD'' = NaN \<and> parseFloat E ''EUR'' = NaN \<longrightarrow>
       sumTotals E (sumTotals E [] (JObj [(''currency'', JStr ''USD'')]))
         (JObj [(''currency'', JStr ''EUR'')])
       = [(''currency'', JStr ''USD'')])"
proof -
  have "or_zero (num E (lookup agg k)) = Fin 0" if "\<not> has_key agg k"
    using has_key_lookup[OF that] by (simp add: or_zero_def)
  then show ?thesis
    using sumTotals_lookup[of E agg add k] sumTotals_cost_orders[of E] sumTotals_currency[of E] by simp
qed

text \<open>
  On the engine for examples the two merges give the stated objects.
\<close>

theorem sumTotals_merges_witness:
  "parseFloat exampleEngine ''10'' = Fin 10 \<and> parseFloat exampleEngine ''USD'' = NaN
   \<and> roundDouble exampleEngine 15 = Fin 15
   \<and> \<not> has_key [] ''cost''
   \<and> sumTotals exampleEngine
        (sumTotals exampleEngine [] (JObj [(''cost'', JStr ''10''), (''orders'', JStr ''2'')]))
        (JObj [(''cost'', JStr ''5''), (''orders'', JStr ''3'')])
      = [(''cost'', JNum (Fin 15)), (''orders'', JNum (Fin 5))]
   \<and> sumTotals exampleEngine (sumTotals exampleEngine [] (JObj [(''currency'', JStr ''USD'')]))
        (JObj [(''currency'', JStr ''EUR'')])
      = [(''currency'', JStr ''USD'')]
   \<and> lookup (sumTotals exampleEngine [] (JObj [(''cost'', JStr ''10'')])) ''cost'' = JNum (Fin 10)"
  using sumTotals_merges[of exampleEngine "[]" "JObj [(''cost'', JStr ''10'')]" "''cost''"]
  by (simp add: exampleEngine_parseFloat exampleEngine_roundDouble has_key_def or_zero_def lookup_def)

text \<open>
  The field \<open>roi\<close> after the recomputation, and every other field.
\<close>

lemma recomputeRoi_lookup:
  "lookup (recomputeRoi E t) k =
    (let cost = num E (lookup t ''cost'');
         gross = num E (lookup t ''gross_revenue'');
         netCost = num E (lookup t ''net_cost'')
     in if k \<noteq> ''roi'' then lookup t k
        else if isFinite cost \<and> positive cost \<and> isFinite gross then JNum (js_div E gross cost)
        else if (\<not> isFinite cost \<or> isZero cost) \<and> isFinite netCost \<and> positive netCost \<and> isFinite gross
        then JNum (js_div E gross netCost)
        else lookup t ''roi'')"
  by (cases "num E (lookup t ''cost'')")
     (auto simp: recomputeRoi_def Let_def lookup_assign)

text \<open>
  C5, as amended. The recomputation replaces the ROI only when the summed gross revenue is
  a finite number: then roi = gross_revenue / cost when the summed cost is finite and
  positive, and roi = gross_revenue / net_cost when the cost is zero or not finite and
  the net cost is finite and positive. In every other case, a gross revenue that is not
  finite among them, the ROI keeps the value the merges gave it. No other field changes.
  A summed cost of 100 and gross revenue of 250 give 2.5; a cost of 0, net cost of 50 and
  gross revenue of 100 give 2.
\<close>

theorem recomputeRoi_guarded:
  "lookup (recomputeRoi E t) ''roi'' =
     (if isFinite (num E (lookup t ''gross_revenue'')) \<and> isFinite (num E (lookup t ''cost''))
         \<and> positive (num E (lookup t ''cost''))
      then JNum (js_div E (num E (lookup t ''gross_revenue'')) (num E (lookup t ''cost'')))
      else if isFinite (num E (lookup t ''gross_revenue''))
         \<and> (\<not> isFinite (num E (lookup t ''cost'')) \<or> isZero (num E (lookup t ''cost'')))
         \<and> isFinite (num E (lookup t ''net_cost'')) \<and> positive (num E (lookup t ''net_cost''))
      then JNum (js_div E (num E (lookup t ''gross_revenue'')) (num E (lookup t ''net_cost'')))
      else lookup t ''roi'')
   \<and> (k \<noteq> ''roi'' \<longrightarrow> lookup (recomputeRoi E t) k = lookup t k)
   \<and> (roundDouble E (5 / 2) = Fin (5 / 2) \<longrightarrow>
        lookup (recomputeRoi E [(''cost'', JNum (Fin 100)), (''gross_revenue'', JNum (Fin 250))])
          ''roi'' = JNum (Fin (5 / 2)))
   \<and> (roundDouble E 2 = Fin 2 \<longrightarrow>
        lookup (recomputeRoi E [(''cost'', JNum (Fin 0)), (''net_cost'', JNum (Fin 50)),
                                (''gross_revenue'', JNum (Fin 100))])
          ''roi'' = JNum (Fin 2))"
  using recomputeRoi_lookup[of E t k] recomputeRoi_lookup[of E t "''roi''"]
    recomputeRoi_lookup[of E "[(''cost'', JNum (Fin 100)), (''gross_revenue'', JNum (Fin 250))]" "''roi''"]
    recomputeRoi_lookup[of E "[(''cost'', JNum (Fin 0)), (''net_cost'', JNum (Fin 50)),
                                (''gross_revenue'', JNum (Fin 100))]" "''roi''"]
  by (auto simp: Let_def lookup_def)

text \<open>
  On the engine for examples the two quotients are 5/2 and 2.
\<close>

theorem recomputeRoi_guarded_witness:
  "roundDouble exampleEngine (5 / 2) = Fin (5 / 2)
   \<and> lookup (recomputeRoi exampleEngine
               [(''cost'', JNum (Fin 100)), (''gross_revenue'', JNum (Fin 250))]) ''roi''
       = JNum (Fin (5 / 2))
   \<and> roundDouble exampleEngine 2 = Fin 2
   \<and> lookup (recomputeRoi exampleEngine
               [(''cost'', JNum (Fin 0)), (''net_cost'', JNum (Fin 50)),
                (''gross_revenue'', JNum (Fin 100))]) ''roi''
       = JNum (Fin 2)
   \<and> lookup (recomputeRoi exampleEngine
               [(''cost'', JNum (Fin 100)), (''gross_revenue'', JNum (Fin 250))]) ''cost''
       = JNum (Fin 100)"
  using recomputeRoi_guarded[of exampleEngine
      "[(''cost'', JNum (Fin 100)), (''gross_revenue'', JNum (Fin 250))]" "''cost''"]
  by (simp add: exampleEngine_roundDouble lookup_def)

text \<open>
  C5 as stated fails where the gross revenue is not a number: with a summed cost of 100, a
  gross revenue carried through as the string "n/a" and a merged ROI of 7, the cost is
  finite and positive, yet the ROI stays 7, which is not gross_revenue / cost (NaN).
\<close>

theorem recomputeRoi_counterexample:
  "isFinite (num exampleEngine
       (lookup [(''cost'', JNum (Fin 100)), (''gross_revenue'', JStr ''n/a''), (''roi'', JNum (Fin 7))]
          ''cost''))
   \<and> positive (num exampleEngine
       (lookup [(''cost'', JNum (Fin 100)), (''gross_revenue'', JStr ''n/a''), (''roi'', JNum (Fin 7))]
          ''cost''))
   \<and> lookup (recomputeRoi exampleEngine
        [(''cost'', JNum (Fin 100)), (''gross_revenue'', JStr ''n/a''), (''roi'', JNum (Fin 7))])
        ''roi'' = JNum (Fin 7)
   \<and> lookup (recomputeRoi exampleEngine
        [(''cost'', JNum (Fin 100)), (''gross_revenue'', JStr ''n/a''), (''roi'', JNum (Fin 7))])
        ''roi''
     \<noteq> JNum (js_div exampleEngine
          (num exampleEngine
             (lookup [(''cost'', JNum (Fin 100)), (''gross_revenue'', JStr ''n/a''),
                      (''roi'', JNum (Fin 7))] ''gross_revenue''))
          (num exampleEngine
             (lookup [(''cost'', JNum (Fin 100)), (''gross_revenue'', JStr ''n/a''),
                      (''roi'', JNum (Fin 7))] ''cost'')))"
  by (simp add: recomputeRoi_def lookup_def exampleEngine_parseFloat Let_def)

section \<open>Properties of row flattening\<close>

text \<open>
  The column names of every report are distinct, so a field of the flattened row is the
  cell computed for its column.
\<close>

lemma distinct_columns: "distinct (map fst (columns R))"
  by (cases R) (simp_all add: metric_def)

lemma lookup_map_cell:
  "distinct (map fst cols) \<Longrightarrow> (c, s) \<in> set cols \<Longrightarrow>
     lookup (map (\<lambda>(c, s). (c, f s)) cols) c = f s"
  by (induction cols) (auto simp: lookup_def rev_image_eqI)

lemma lookup_flattenItem:
  "(c, s) \<in> set (columns R) \<Longrightarrow>
     lookup (flattenItem R cfg item) c
       = cell cfg (subObject item ''dimensions'') (subObject item ''metrics'') s"
  by (simp add: flattenItem_def Let_def lookup_map_cell[OF distinct_columns])

lemma cell_not_nullish: "\<not> nullish (cell cfg d m s)"
  by (cases s) (auto simp: or_else_def elim: nullish.elims)

text \<open>
  C7. In every report, for every item and every column fed from a dimension or a metric,
  a key that is absent from the item's dimensions (or metrics) is written to the
  flattened row as the empty string; and no declared output column of the flattened row
  is \<open>null\<close> or \<open>undefined\<close>, so the sink's default \<open>?? ''\<close> leaves the row as it is.
\<close>

theorem missing_field_empty_string:
  "((c, Dimension k) \<in> set (columns R) \<and> getProp (subObject item ''dimensions'') k = JUndefined
       \<longrightarrow> lookup (flattenItem R cfg item) c = JStr [])
   \<and> ((c, Metric k) \<in> set (columns R) \<and> getProp (subObject item ''metrics'') k = JUndefined
       \<longrightarrow> lookup (flattenItem R cfg item) c = JStr [])
   \<and> (h \<in> set (headerOrder R) \<longrightarrow>
         \<not> nullish (lookup (flattenItem R cfg item) h)
       \<and> coalesce (lookup (flattenItem R cfg item) h) (JStr []) = lookup (flattenItem R cfg item) h)"
proof -
  have "\<not> nullish (lookup (flattenItem R cfg item) h)" if "h \<in> set (headerOrder R)"
  proof -
    from that obtain s where "(h, s) \<in> set (columns R)" by (auto simp: headerOrder_def)
    then show ?thesis by (simp add: lookup_flattenItem cell_not_nullish)
  qed
  then show ?thesis
    by (auto simp: lookup_flattenItem or_else_def coalesce_def)
qed

text \<open>
  The second example item has no order count, and the empty item has no dimensions: both
  fields are the empty string in the row of the daily product campaign report.
\<close>

theorem missing_field_empty_string_witness:
  "(''orders'', Metric ''orders'') \<in> set (columns ProductGmvMaxCampaignDaily)
   \<and> getProp (subObject exampleItemZero ''metrics'') ''orders'' = JUndefined
   \<and> lookup (flattenItem ProductGmvMaxCampaignDaily exampleConfig exampleItemZero) ''orders'' = JStr []
   \<and> (''stat_time_day'', Dimension ''stat_time_day'') \<in> set (columns ProductGmvMaxCampaignDaily)
   \<and> getProp (subObject (JObj []) ''dimensions'') ''stat_time_day'' = JUndefined
   \<and> lookup (flattenItem ProductGmvMaxCampaignDaily exampleConfig (JObj [])) ''stat_time_day'' = JStr []
   \<and> ''roi'' \<in> set (headerOrder ProductGmvMaxCampaignDaily)
   \<and> \<not> nullish (lookup (flattenItem ProductGmvMaxCampaignDaily exampleConfig exampleItemZero) ''roi'')"
  using missing_field_empty_string[of "''orders''" "''orders''" ProductGmvMaxCampaignDaily
          exampleItemZero exampleConfig "''roi''"]
        missing_field_empty_string[of "''stat_time_day''" "''stat_time_day''" ProductGmvMaxCampaignDaily
          "JObj []" exampleConfig "''roi''"]
  by (simp add: metric_def headerOrder_def subObject_def exampleItemZero_def or_else_def lookup_def)

text \<open>
  C9. In every report, for every item and every column fed from a dimension or a metric,
  a value that is present but counts as false (the number 0, the empty string, \<open>false\<close>,
  \<open>null\<close>) is written to the flattened row as the empty string, as an absent one is.
\<close>

theorem falsy_field_empty_string:
  "((c, Dimension k) \<in> set (columns R) \<and> \<not> truthy (getProp (subObject item ''dimensions'') k)
       \<longrightarrow> lookup (flattenItem R cfg item) c = JStr [])
   \<and> ((c, Metric k) \<in> set (columns R) \<and> \<not> truthy (getProp (subObject item ''metrics'') k)
       \<longrightarrow> lookup (flattenItem R cfg item) c = JStr [])
   \<and> \<not> truthy (JNum (Fin 0)) \<and> \<not> truthy (JStr []) \<and> \<not> truthy (JBool False) \<and> \<not> truthy JNull
   \<and> \<not> truthy JUndefined"
  by (auto simp: lookup_flattenItem or_else_def)

text \<open>
  The second example item has a cost of 0 and no order count: both fields are the empty
  string, so the row does not tell a zero cost from a missing one; and a campaign id of
  \<open>null\<close> is written as the empty string too.
\<close>

theorem falsy_field_empty_string_witness:
  "(''cost'', Metric ''cost'') \<in> set (columns ProductGmvMaxCampaignDaily)
   \<and> getProp (subObject exampleItemZero ''metrics'') ''cost'' = JNum (Fin 0)
   \<and> \<not> truthy (getProp (subObject exampleItemZero ''metrics'') ''cost'')
   \<and> lookup (flattenItem ProductGmvMaxCampaignDaily exampleConfig exampleItemZero) ''cost'' = JStr []
   \<and> lookup (flattenItem ProductGmvMaxCampaignDaily exampleConfig exampleItemZero) ''cost''
     = lookup (flattenItem ProductGmvMaxCampaignDaily exampleConfig exampleItemZero) ''orders''
   \<and> (''campaign_id'', Dimension ''campaign_id'') \<in> set (columns ProductGmvMaxCampaignDaily)
   \<and> \<not> truthy (getProp (subObject (JObj [(''dimensions'', JObj [(''campaign_id'', JNull)])])
                       ''dimensions'') ''campaign_id'')
   \<and> lookup (flattenItem ProductGmvMaxCampaignDaily exampleConfig
               (JObj [(''dimensions'', JObj [(''campaign_id'', JNull)])])) ''campaign_id'' = JStr []"
  using falsy_field_empty_string[of "''cost''" "''cost''" ProductGmvMaxCampaignDaily
          exampleItemZero exampleConfig]
        falsy_field_empty_string[of "''orders''" "''orders''" ProductGmvMaxCampaignDaily
          exampleItemZero exampleConfig]
        falsy_field_empty_string[of "''campaign_id''" "''campaign_id''" ProductGmvMaxCampaignDaily
          "JObj [(''dimensions'', JObj [(''campaign_id'', JNull)])]" exampleConfig]
  by (simp add: metric_def subObject_def exampleItemZero_def or_else_def lookup_def)

section \<open>Properties of the sinks\<close>

lemma setValues_header: "setValues (Suc 0) [h] [] = [h]"
  by (simp add: setValues_def)

lemma setValues_data: "setValues 2 data [h] = h # data"
  by (simp add: setValues_def)

lemma writeRowsToSheet_sheet:
  "header \<noteq> [] \<Longrightarrow>
   writeRowsToSheet name rows header ss
     = (None, ss(name \<mapsto> map JStr header
                 # map (\<lambda>r. map (\<lambda>h. coalesce (lookup r h) (JStr [])) header) rows))"
  by (simp add: writeRowsToSheet_def Let_def clearContents_def setValues_header setValues_data)

lemma writeRowsToSheet_refused:
  "writeRowsToSheet name rows [] ss = (Some (Exception ''getRange''), ss(name \<mapsto> []))"
  by (simp add: writeRowsToSheet_def Let_def clearContents_def)

lemma writeRowsToSheet_live_sheet:
  "cols \<noteq> [] \<Longrightarrow>
   writeRowsToSheet_live name rows cols ss
     = (None, ss(name \<mapsto> map JStr cols
                 # map (\<lambda>r. map (\<lambda>c. if lookup r c \<noteq> JUndefined then lookup r c else JStr []) cols) rows))"
  by (simp add: writeRowsToSheet_live_def Let_def clearContents_def setValues_header setValues_data)

lemma writeRowsToSheet_live_refused:
  "writeRowsToSheet_live name rows [] ss = (Some (Exception ''getRange''), ss(name \<mapsto> []))"
  by (simp add: writeRowsToSheet_live_def Let_def clearContents_def)


lemma getLastRow_snoc:
  "\<not> list_all blankCell r \<Longrightarrow> getLastRow (sh @ [r]) = Suc (length sh)"
  by (simp add: getLastRow_def)

lemma errorKeys_not_blank: "\<not> list_all blankCell (map JStr errorKeys)"
  by (simp add: errorKeys_def blankCell_def)

lemma getLastRow_0_header:
  assumes z: "getLastRow sh = 0"
  shows "take (getLastRow (setValues (Suc 0) [map JStr errorKeys] sh))
           (setValues (Suc 0) [map JStr errorKeys] sh) = [map JStr errorKeys]"
proof -
  from z have b: "list_all (list_all blankCell) sh"
    by (simp add: getLastRow_def dropWhile_eq_Nil_conv list_all_iff)
  have s: "setValues (Suc 0) [map JStr errorKeys] sh = map JStr errorKeys # drop (Suc 0) sh"
    by (simp add: setValues_def)
  have "list_all (list_all blankCell) (drop (Suc 0) sh)" using b
    by (metis append_take_drop_id list_all_append)
  then have "dropWhile (list_all blankCell) (rev (drop (Suc 0) sh)) = []"
    by (simp add: dropWhile_eq_Nil_conv list_all_iff)
  then have "getLastRow (map JStr errorKeys # drop (Suc 0) sh) = Suc 0"
    using errorKeys_not_blank by (simp add: getLastRow_def dropWhile_append)
  then show ?thesis by (simp add: s)
qed

lemma logErrorRow_sheet:
  "logErrorRow name ob ss name
     = Some ((if getLastRow (getSheet ss name) = 0 then [map JStr errorKeys]
              else take (getLastRow (getSheet ss name)) (getSheet ss name))
             @ [map (\<lambda>k. or_else (lookup ob k) (JStr [])) errorKeys])"
  by (simp add: logErrorRow_def Let_def appendRow_def getLastRow_0_header)

lemma logErrorRow_twice:
  assumes nb: "\<not> list_all blankCell (map (\<lambda>k. or_else (lookup ob k) (JStr [])) errorKeys)"
  shows "logErrorRow name ob (logErrorRow name ob ss) name
     = Some ((if getLastRow (getSheet ss name) = 0 then [map JStr errorKeys]
              else take (getLastRow (getSheet ss name)) (getSheet ss name))
             @ [map (\<lambda>k. or_else (lookup ob k) (JStr [])) errorKeys,
                map (\<lambda>k. or_else (lookup ob k) (JStr [])) errorKeys])"
proof -
  let ?row = "map (\<lambda>k. or_else (lookup ob k) (JStr [])) errorKeys"
  let ?base = "(if getLastRow (getSheet ss name) = 0 then [map JStr errorKeys]
              else take (getLastRow (getSheet ss name)) (getSheet ss name))"
  have g: "getSheet (logErrorRow name ob ss) name = ?base @ [?row]"
    using logErrorRow_sheet[of name ob ss] by (simp add: getSheet_def)
  have l: "getLastRow (?base @ [?row]) = Suc (length ?base)"
    using nb by (rule getLastRow_snoc)
  show ?thesis
    unfolding logErrorRow_sheet[of name ob "logErrorRow name ob ss"] g l by simp
qed

text \<open>
  C8. A write of rows under a column list that is not empty leaves at the destination the
  header row followed by one row for each flattened row, whatever the sheet held before,
  and leaves every other sheet as it was; and writing the same rows a second time gives
  the same result and the same spreadsheet as writing them once (for the sink of the
  single-query scripts and for that of the batch script). The error log instead appends:
  a call leaves the rows the sheet had (the header row, if it had none) followed by the
  new row, and a second call with a row that is not blank appends the row again.
\<close>

theorem sink_overwrites_log_appends:
  "(header \<noteq> [] \<longrightarrow>
      writeRowsToSheet name rows header ss
        = (None, ss(name \<mapsto> map JStr header
                    # map (\<lambda>r. map (\<lambda>h. coalesce (lookup r h) (JStr [])) header) rows))
    \<and> writeRowsToSheet_live name rows header ss
        = (None, ss(name \<mapsto> map JStr header
                    # map (\<lambda>r. map (\<lambda>c. if lookup r c \<noteq> JUndefined then lookup r c else JStr [])
                                   header) rows)))
   \<and> writeRowsToSheet name rows header (snd (writeRowsToSheet name rows header ss))
     = writeRowsToSheet name rows header ss
   \<and> writeRowsToSheet_live name rows header (snd (writeRowsToSheet_live name rows header ss))
     = writeRowsToSheet_live name rows header ss
   \<and> logErrorRow name ob ss name
     = Some ((if getLastRow (getSheet ss name) = 0 then [map JStr errorKeys]
              else take (getLastRow (getSheet ss name)) (getSheet ss name))
             @ [map (\<lambda>k. or_else (lookup ob k) (JStr [])) errorKeys])
   \<and> (\<not> list_all blankCell (map (\<lambda>k. or_else (lookup ob k) (JStr [])) errorKeys) \<longrightarrow>
       logErrorRow name ob (logErrorRow name ob ss) name
       = Some ((if getLastRow (getSheet ss name) = 0 then [map JStr errorKeys]
                else take (getLastRow (getSheet ss name)) (getSheet ss name))
               @ [map (\<lambda>k. or_else (lookup ob k) (JStr [])) errorKeys,
                  map (\<lambda>k. or_else (lookup ob k) (JStr [])) errorKeys]))"
proof (cases "header = []")
  case True
  then show ?thesis
    using logErrorRow_sheet[of name ob ss] logErrorRow_twice[of ob name ss]
    by (simp add: writeRowsToSheet_refused writeRowsToSheet_live_refused)
next
  case False
  then show ?thesis
    using logErrorRow_sheet[of name ob ss] logErrorRow_twice[of ob name ss]
    by (simp add: writeRowsToSheet_sheet writeRowsToSheet_live_sheet)
qed

text \<open>
  A row written twice to a new sheet stands there once under its header; an error logged
  twice to a new sheet stands there twice under the header of the log.
\<close>

theorem sink_overwrites_log_appends_witness:
  "[''a'', ''b''] \<noteq> []
   \<and> writeRowsToSheet ''T'' [[(''a'', JStr ''1'')]] [''a'', ''b'']
       (snd (writeRowsToSheet ''T'' [[(''a'', JStr ''1'')]] [''a'', ''b''] Map.empty))
     = (None, [''T'' \<mapsto> [[JStr ''a'', JStr ''b''], [JStr ''1'', JStr []]]])
   \<and> \<not> list_all blankCell (map (\<lambda>k. or_else (lookup [(''message'', JStr ''m'')] k) (JStr [])) errorKeys)
   \<and> logErrorRow ''GMVMax_Errors'' [(''message'', JStr ''m'')]
        (logErrorRow ''GMVMax_Errors'' [(''message'', JStr ''m'')] Map.empty) ''GMVMax_Errors''
     = Some [[JStr ''ts'', JStr ''advertiser_id'', JStr ''store_id'', JStr ''window'', JStr ''message''],
             [JStr [], JStr [], JStr [], JStr [], JStr ''m''],
             [JStr [], JStr [], JStr [], JStr [], JStr ''m'']]"
  using sink_overwrites_log_appends[where header = "[''a'', ''b'']" and name = "''T''"
          and rows = "[[(''a'', JStr ''1'')]]" and ss = Map.empty
          and ob = "[(''message'', JStr ''m'')]"]
        sink_overwrites_log_appends[where header = "[''a'', ''b'']" and name = "''GMVMax_Errors''"
          and rows = "[]" and ss = Map.empty and ob = "[(''message'', JStr ''m'')]"]
  by (simp add: errorKeys_def blankCell_def or_else_def lookup_def coalesce_def getSheet_def
        getLastRow_def writeRowsToSheet_sheet)

section \<open>Properties of pagination\<close>

text \<open>
  On pages that are answered well and report \<open>N\<close> pages, both loops run from the current
  page to page \<open>N\<close> and stop there, given fuel for the calls.
\<close>

lemma pushItems_good:
  "list_all (\<lambda>item. \<not> nullish item) items \<Longrightarrow>
     pushItems R cfg items rows = (None, rows @ map (flattenItem R cfg) items)"
  by (induction items arbitrary: rows) auto

lemma goodPageE:
  assumes "goodPage E R cfg fetch N p"
  obtains body items where
    "fetchBody E R fetch (params R cfg p) = Inr body"
    "totalPage E (or_else (getProp body ''data'') (JObj [])) = Fin (of_nat N)"
    "or_else (getProp (or_else (getProp body ''data'') (JObj [])) ''list'') (JArr []) = JArr items"
    "list_all (\<lambda>item. \<not> nullish item) items"
    "rowsOfPage E R cfg fetch p = map (flattenItem R cfg) items"
  using assms
  by (auto simp: goodPage_def rowsOfPage_def Let_def split: sum.splits jsval.splits)

lemma fetchAll_pages:
  assumes "\<forall>p. page \<le> p \<and> p \<le> N \<longrightarrow> goodPage E R cfg fetch N p"
    and "page \<le> N" and "N - page < fuel"
  shows "fst (fetchAll E R cfg fetch fuel page st) = Finished
    \<and> requests (snd (fetchAll E R cfg fetch fuel page st))
        = requests st @ map (params R cfg) [page..<Suc N]
    \<and> allRows (snd (fetchAll E R cfg fetch fuel page st))
        = allRows st @ concat (map (rowsOfPage E R cfg fetch) [page..<Suc N])"
  using assms
proof (induction fuel arbitrary: page st)
  case 0
  then show ?case by simp
next
  case (Suc fuel)
  from Suc.prems have "goodPage E R cfg fetch N page" by simp
  then obtain body items where g:
    "fetchBody E R fetch (params R cfg page) = Inr body"
    "totalPage E (or_else (getProp body ''data'') (JObj [])) = Fin (of_nat N)"
    "or_else (getProp (or_else (getProp body ''data'') (JObj [])) ''list'') (JArr []) = JArr items"
    "list_all (\<lambda>item. \<not> nullish item) items"
    "rowsOfPage E R cfg fetch page = map (flattenItem R cfg) items"
    by (rule goodPageE)
  show ?case
  proof (cases "page = N")
    case True
    then show ?thesis
      using g by (simp add: Let_def pushItems_good)
  next
    case False
    with Suc.prems have lt: "page < N" by simp
    then have a: "\<forall>p. Suc page \<le> p \<and> p \<le> N \<longrightarrow> goodPage E R cfg fetch N p"
      and b: "Suc page \<le> N" and c: "N - Suc page < fuel"
      using Suc.prems by auto
    note ih = Suc.IH[OF a b c]
    have u: "[page..<Suc N] = page # [Suc page..<Suc N]"
      using lt by (simp add: upt_conv_Cons del: upt_Suc)
    show ?thesis
      using g lt by (simp add: Let_def pushItems_good ih u del: upt_Suc)
  qed
qed

lemma fetchSlice_pages:
  assumes "\<forall>p. page \<le> p \<and> p \<le> N \<longrightarrow>
             goodPage E LiveGmvMaxCampaignDaily_SinceJune1_Simple cfg fetch N p"
    and "page \<le> N" and "N - page < fuel"
  shows "fst (fetchSlice E cfg fetch fuel page st) = Finished
    \<and> requests (snd (fetchSlice E cfg fetch fuel page st))
        = requests st @ map (params LiveGmvMaxCampaignDaily_SinceJune1_Simple cfg) [page..<Suc N]
    \<and> allRows (snd (fetchSlice E cfg fetch fuel page st))
        = allRows st @ concat (map (rowsOfPage E LiveGmvMaxCampaignDaily_SinceJune1_Simple cfg fetch)
                                 [page..<Suc N])
    \<and> totalsAgg (snd (fetchSlice E cfg fetch fuel page st))
        = mergedTotals E (totalsAgg st)
            (map (totalsOfPage E LiveGmvMaxCampaignDaily_SinceJune1_Simple cfg fetch) [page..<Suc N])"
  using assms
proof (induction fuel arbitrary: page st)
  case 0
  then show ?case by simp
next
  case (Suc fuel)
  let ?R = LiveGmvMaxCampaignDaily_SinceJune1_Simple
  from Suc.prems have "goodPage E ?R cfg fetch N page" by simp
  then obtain body items where g:
    "fetchBody E ?R fetch (params ?R cfg page) = Inr body"
    "totalPage E (or_else (getProp body ''data'') (JObj [])) = Fin (of_nat N)"
    "or_else (getProp (or_else (getProp body ''data'') (JObj [])) ''list'') (JArr []) = JArr items"
    "list_all (\<lambda>item. \<not> nullish item) items"
    "rowsOfPage E ?R cfg fetch page = map (flattenItem ?R cfg) items"
    by (rule goodPageE)
  have tp: "totalsOfPage E ?R cfg fetch page = getProp body ''total_metrics''"
    using g(1) by (simp add: totalsOfPage_def)
  show ?case
  proof (cases "page = N")
    case True
    then show ?thesis
      using g tp by (simp add: Let_def pushItems_good mergedTotals_def)
  next
    case False
    with Suc.prems have lt: "page < N" by simp
    then have a: "\<forall>p. Suc page \<le> p \<and> p \<le> N \<longrightarrow> goodPage E ?R cfg fetch N p"
      and b: "Suc page \<le> N" and c: "N - Suc page < fuel"
      using Suc.prems by auto
    note ih = Suc.IH[OF a b c]
    have u: "[page..<Suc N] = page # [Suc page..<Suc N]"
      using lt by (simp add: upt_conv_Cons del: upt_Suc)
    show ?thesis
      using g lt tp by (simp add: Let_def pushItems_good ih u mergedTotals_def del: upt_Suc)
  qed
qed

text \<open>
  One round of the single-query loop: it throws, or stops, or goes on with the next page;
  in each case the call is on record, and the totals object is taken from the body only
  if totals are enabled and none was kept before.
\<close>

lemma fetchAll_step:
  obtains (threw) err where
      "fetchBody E R fetch (params R cfg page) = Inl err"
      "fetchAll E R cfg fetch (Suc fuel) page st
         = (Threw err, st\<lparr>requests := requests st @ [params R cfg page]\<rparr>)"
  | (stop) body out st2 where
      "fetchBody E R fetch (params R cfg page) = Inr body"
      "fetchAll E R cfg fetch (Suc fuel) page st = (out, st2)"
      "requests st2 = requests st @ [params R cfg page]"
      "totalMetrics st2 =
         (if enable_total_metrics cfg \<and> truthy (getProp body ''total_metrics'')
             \<and> \<not> truthy (totalMetrics st)
          then getProp body ''total_metrics'' else totalMetrics st)"
  | (continue) body st2 where
      "fetchBody E R fetch (params R cfg page) = Inr body"
      "fetchAll E R cfg fetch (Suc fuel) page st = fetchAll E R cfg fetch fuel (Suc page) st2"
      "requests st2 = requests st @ [params R cfg page]"
      "totalMetrics st2 =
         (if enable_total_metrics cfg \<and> truthy (getProp body ''total_metrics'')
             \<and> \<not> truthy (totalMetrics st)
          then getProp body ''total_metrics'' else totalMetrics st)"
proof (cases "fetchBody E R fetch (params R cfg page)")
  case (Inl err)
  then show ?thesis using threw by simp
next
  case (Inr body)
  define st2 where "st2 =
     (if enable_total_metrics cfg \<and> truthy (getProp body ''total_metrics'')
         \<and> \<not> truthy (totalMetrics st)
      then st\<lparr>requests := requests st @ [params R cfg page],
               totalMetrics := getProp body ''total_metrics''\<rparr>
      else st\<lparr>requests := requests st @ [params R cfg page]\<rparr>)"
  obtain e rows where f: "forEachItem R cfg
      (or_else (getProp (or_else (getProp body ''data'') (JObj [])) ''list'') (JArr []))
      (allRows st) = (e, rows)" by fastforce
  have r: "requests (st2\<lparr>allRows := rows\<rparr>) = requests st @ [params R cfg page]"
    by (simp add: st2_def)
  have t: "totalMetrics (st2\<lparr>allRows := rows\<rparr>) =
         (if enable_total_metrics cfg \<and> truthy (getProp body ''total_metrics'')
             \<and> \<not> truthy (totalMetrics st)
          then getProp body ''total_metrics'' else totalMetrics st)"
    by (simp add: st2_def)
  show ?thesis
  proof (cases e)
    case (Some err)
    with Inr f have "fetchAll E R cfg fetch (Suc fuel) page st = (Threw err, st2\<lparr>allRows := rows\<rparr>)"
      by (simp add: Let_def st2_def)
    then show ?thesis using stop Inr r t by blast
  next
    case None
    show ?thesis
    proof (cases "page_ge page (totalPage E (or_else (getProp body ''data'') (JObj [])))")
      case True
      with Inr f None
      have "fetchAll E R cfg fetch (Suc fuel) page st = (Finished, st2\<lparr>allRows := rows\<rparr>)"
        by (simp add: Let_def st2_def)
      then show ?thesis using stop Inr r t by blast
    next
      case False
      with Inr f None
      have "fetchAll E R cfg fetch (Suc fuel) page st
              = fetchAll E R cfg fetch fuel (Suc page) (st2\<lparr>allRows := rows\<rparr>)"
        by (simp add: Let_def st2_def)
      then show ?thesis using continue Inr r t by blast
    qed
  qed
qed

lemma fetchAll_requests_prefix:
  "\<exists>more. requests (snd (fetchAll E R cfg fetch fuel page st)) = requests st @ more"
proof (induction fuel arbitrary: page st)
  case 0
  show ?case by simp
next
  case (Suc fuel)
  show ?case
  proof (cases rule: fetchAll_step[of E R fetch cfg page fuel st])
    case (threw err)
    then show ?thesis by (simp del: fetchAll.simps)
  next
    case (stop body out st2)
    then show ?thesis by (simp del: fetchAll.simps)
  next
    case (continue body st2)
    with Suc.IH[of "Suc page" st2] show ?thesis by (auto simp del: fetchAll.simps)
  qed
qed

lemma fetchAll_first_request:
  "\<exists>more. requests (snd (fetchAll E R cfg fetch (Suc fuel) page st))
            = requests st @ params R cfg page # more"
proof (cases rule: fetchAll_step[of E R fetch cfg page fuel st])
  case (threw err)
  then show ?thesis by (simp del: fetchAll.simps)
next
  case (stop body out st2)
  then show ?thesis by (simp del: fetchAll.simps)
next
  case (continue body st2)
  with fetchAll_requests_prefix[of E R cfg fetch fuel "Suc page" st2] show ?thesis
    by (auto simp del: fetchAll.simps)
qed

text \<open>
  The single-query loop keeps the first totals object: whatever the pages answer, the
  totals it ends with are those of the first call that carried an object.
\<close>

lemma fetchAll_totals_first:
  "totalMetrics (snd (fetchAll E R cfg fetch fuel page st)) =
     (if enable_total_metrics cfg \<and> \<not> truthy (totalMetrics st)
      then firstTotals
             (map (\<lambda>rq. totalsOfPage E R cfg fetch (rq_page rq))
                (drop (length (requests st)) (requests (snd (fetchAll E R cfg fetch fuel page st)))))
             (totalMetrics st)
      else totalMetrics st)"
proof (induction fuel arbitrary: page st)
  case 0
  show ?case by (simp add: firstTotals_def)
next
  case (Suc fuel)
  have pg: "rq_page (params R cfg page) = page" by (simp add: params_def)
  show ?case
  proof (cases rule: fetchAll_step[of E R fetch cfg page fuel st])
    case (threw err)
    then show ?thesis by (simp add: firstTotals_def totalsOfPage_def pg del: fetchAll.simps)
  next
    case (stop body out st2)
    then show ?thesis by (simp add: firstTotals_def totalsOfPage_def pg del: fetchAll.simps)
  next
    case (continue body st2)
    obtain more where m: "requests (snd (fetchAll E R cfg fetch fuel (Suc page) st2))
        = requests st @ params R cfg page # more"
      using fetchAll_requests_prefix[of E R cfg fetch fuel "Suc page" st2] continue(3) by auto
    have t: "totalsOfPage E R cfg fetch page = getProp body ''total_metrics''"
      using continue(1) by (simp add: totalsOfPage_def)
    show ?thesis
      using Suc.IH[of "Suc page" st2] continue(3,4) m
      unfolding continue(2)
      by (auto simp: firstTotals_def pg t simp del: fetchAll.simps)
  qed
qed


lemma exampleApi_body: "rq_advertiser_id req \<noteq> ''A'' \<Longrightarrow> fetchBody E R exampleApi req = Inr exampleBody"
  by (simp add: fetchBody_def exampleApi_def get_def exampleBody_def lookup_def)


lemma exampleApi_goodPage: "advertiser_id cfg \<noteq> ''A'' \<Longrightarrow> goodPage E R cfg exampleApi 3 p"
  by (simp add: goodPage_def exampleApi_body params_def totalPage_def)
     (simp add: exampleBody_def or_else_def lookup_def exampleItem_def exampleItemZero_def)

lemma upt_1_4: "[Suc 0..<4] = [Suc 0, 2, 3]"
  by (simp add: upt_rec)


lemma totalsOfPage_example:
  "advertiser_id cfg \<noteq> ''A'' \<Longrightarrow>
     totalsOfPage E R cfg exampleApi p = JObj [(''cost'', JStr ''10'')]"
  by (simp add: totalsOfPage_def exampleApi_body params_def)
     (simp add: exampleBody_def lookup_def)



text \<open>
  C1. The batch loop does not keep the first totals object of a query: it merges the
  totals object of every page. On the API for examples, whose three pages each carry the
  totals {cost: "10"} of the query, the batch loop makes the three calls and ends with a
  summed cost of 30, where the single-query loop ends with the object of the first page.
\<close>

theorem totals_batch_every_page:
  "totalsAgg (snd (fetchSlice exampleEngine exampleConfig exampleApi 3 1
       \<lparr>allRows = [], requests = [], totalsAgg = []\<rparr>))
     = [(''cost'', JNum (Fin 30))]
   \<and> map rq_page (requests (snd (fetchSlice exampleEngine exampleConfig exampleApi 3 1
       \<lparr>allRows = [], requests = [], totalsAgg = []\<rparr>))) = [1, 2, 3]
   \<and> totalMetrics (snd (fetchAll exampleEngine ProductGmvMaxCampaignDaily exampleConfig exampleApi
       3 1 \<lparr>allRows = [], requests = [], totalMetrics = JNull\<rparr>))
     = JObj [(''cost'', JStr ''10'')]"
proof -
  have a: "advertiser_id exampleConfig \<noteq> ''A''" by (simp add: exampleConfig_def)
  have e: "enable_total_metrics exampleConfig" by (simp add: exampleConfig_def)
  have g: "\<forall>p. Suc 0 \<le> p \<and> p \<le> 3 \<longrightarrow> goodPage exampleEngine R exampleConfig exampleApi 3 p" for R
    using exampleApi_goodPage[OF a] by simp
  have m: "mergedTotals exampleEngine []
             [JObj [(''cost'', JStr ''10'')], JObj [(''cost'', JStr ''10'')], JObj [(''cost'', JStr ''10'')]]
           = [(''cost'', JNum (Fin 30))]"
    by (simp add: mergedTotals_def sumTotals_def sumTotals_key_def or_else_def lookup_def
          or_zero_def has_key_def exampleEngine_parseFloat exampleEngine_roundDouble)
  have s: "totalsAgg (snd (fetchSlice exampleEngine exampleConfig exampleApi 3 1
       \<lparr>allRows = [], requests = [], totalsAgg = []\<rparr>)) = [(''cost'', JNum (Fin 30))]
     \<and> map rq_page (requests (snd (fetchSlice exampleEngine exampleConfig exampleApi 3 1
       \<lparr>allRows = [], requests = [], totalsAgg = []\<rparr>))) = [1, 2, 3]"
    using fetchSlice_pages[of "Suc 0" 3 exampleEngine exampleConfig exampleApi 3
            "\<lparr>allRows = [], requests = [], totalsAgg = []\<rparr>"] g
    by (simp add: upt_1_4 totalsOfPage_example[OF a] m params_def)
  have r: "requests (snd (fetchAll exampleEngine ProductGmvMaxCampaignDaily exampleConfig exampleApi
       3 1 \<lparr>allRows = [], requests = [], totalMetrics = JNull\<rparr>))
      = map (params ProductGmvMaxCampaignDaily exampleConfig) [Suc 0, 2, 3]"
    using fetchAll_pages[of "Suc 0" 3 exampleEngine ProductGmvMaxCampaignDaily exampleConfig
            exampleApi 3 "\<lparr>allRows = [], requests = [], totalMetrics = JNull\<rparr>"] g
    by (simp add: upt_1_4)
  have f: "totalMetrics (snd (fetchAll exampleEngine ProductGmvMaxCampaignDaily exampleConfig exampleApi
       3 1 \<lparr>allRows = [], requests = [], totalMetrics = JNull\<rparr>))
     = JObj [(''cost'', JStr ''10'')]"
    using r
    by (subst fetchAll_totals_first)
       (simp add: e totalsOfPage_example[OF a] firstTotals_def params_def del: fetchAll.simps)
  from s f show ?thesis by simp
qed

section \<open>Properties of the batch driver\<close>






















section \<open>Properties of the range check\<close>

lemma dayCount_inverted:
  assumes "dateParse E (s @ ''T00:00:00Z'') = Some a" "dateParse E (e @ ''T00:00:00Z'') = Some b" "b < a"
  shows "\<exists>d. dayCount E s e = Some d \<and> d \<le> 0"
proof -
  have "(b - a) div msInDay < 0" using assms(3) by (simp add: msInDay_def)
  then show ?thesis using assms by (simp add: dayCount_def)
qed

lemma validate_iff:
  "(\<exists>err. validateDailyRange E s e = Inl err) = (\<exists>d. dayCount E s e = Some d \<and> 30 < d)"
  by (auto simp: validateDailyRange_def split: option.splits)

lemma runReport_state:
  assumes "validateRange E R cfg = Inr ()" "getAccessToken token = Inr t"
  shows "fst (snd (runReport E R cfg token fetch fuel ss))
           = snd (fetchAll E R cfg fetch fuel 1 \<lparr>allRows = [], requests = [], totalMetrics = JNull\<rparr>)"
proof -
  obtain out st where f: "fetchAll E R cfg fetch fuel 1
      \<lparr>allRows = [], requests = [], totalMetrics = JNull\<rparr> = (out, st)" by fastforce
  show ?thesis
    using assms f
    by (cases out) (auto simp: runReport_def Let_def split: prod.splits option.splits)
qed

text \<open>
  C10. The check of the daily range throws if and only if the day count is a number
  greater than 30. In particular, when both dates are valid and the start is after the
  end, the day count is zero or negative, the check passes, and the two daily scripts
  that make the check, given an access token, go on to call the API: the first call on
  record is the call for page 1 with the start date and the end date of the
  configuration, the inverted range.
\<close>

theorem inverted_range_not_rejected:
  "((\<exists>err. validateDailyRange E s e = Inl err) = (\<exists>d. dayCount E s e = Some d \<and> 30 < d))
   \<and> (dateParse E (start_date cfg @ ''T00:00:00Z'') = Some a
      \<and> dateParse E (end_date cfg @ ''T00:00:00Z'') = Some b \<and> b < a
      \<and> token = Some t \<and> t \<noteq> []
      \<and> (R = ProductGmvMaxCampaignDaily \<or> R = ProductGmvMaxProductDaily) \<longrightarrow>
        (\<exists>d. dayCount E (start_date cfg) (end_date cfg) = Some d \<and> d \<le> 0)
      \<and> validateDailyRange E (start_date cfg) (end_date cfg) = Inr ()
      \<and> (\<exists>more. requests (fst (snd (runReport E R cfg token fetch (Suc fuel) ss)))
                   = params R cfg 1 # more)
      \<and> rq_start_date (params R cfg 1) = start_date cfg
      \<and> rq_end_date (params R cfg 1) = end_date cfg)"
proof (intro conjI impI)
  show "(\<exists>err. validateDailyRange E s e = Inl err) = (\<exists>d. dayCount E s e = Some d \<and> 30 < d)"
    by (rule validate_iff)
next
  assume h: "dateParse E (start_date cfg @ ''T00:00:00Z'') = Some a
      \<and> dateParse E (end_date cfg @ ''T00:00:00Z'') = Some b \<and> b < a
      \<and> token = Some t \<and> t \<noteq> []
      \<and> (R = ProductGmvMaxCampaignDaily \<or> R = ProductGmvMaxProductDaily)"
  then obtain d where d: "dayCount E (start_date cfg) (end_date cfg) = Some d" "d \<le> 0"
    using dayCount_inverted[of E "start_date cfg" a "end_date cfg" b] by auto
  then show "\<exists>d. dayCount E (start_date cfg) (end_date cfg) = Some d \<and> d \<le> 0" by auto
  from d show v: "validateDailyRange E (start_date cfg) (end_date cfg) = Inr ()"
    by (simp add: validateDailyRange_def)
  from h v have vr: "validateRange E R cfg = Inr ()" by auto
  from h have tk: "getAccessToken token = Inr t" by (simp add: getAccessToken_def)
  show "\<exists>more. requests (fst (snd (runReport E R cfg token fetch (Suc fuel) ss)))
                   = params R cfg 1 # more"
    unfolding runReport_state[OF vr tk]
    using fetchAll_first_request[of E R cfg fetch fuel 1
            "\<lparr>allRows = [], requests = [], totalMetrics = JNull\<rparr>"]
    by (simp del: fetchAll.simps)
  show "rq_start_date (params R cfg 1) = start_date cfg" by (simp add: params_def)
  show "rq_end_date (params R cfg 1) = end_date cfg" by (simp add: params_def)
qed

text \<open>
  With the start 2025-07-05 and the end 2025-06-01 the day count is -33, the check
  passes, and the first call carries these two dates.
\<close>

theorem inverted_range_not_rejected_witness:
  "dateParse exampleEngine (start_date exampleConfig @ ''T00:00:00Z'') = Some (20274 * 86400000)
   \<and> dateParse exampleEngine (end_date exampleConfig @ ''T00:00:00Z'') = Some (20240 * 86400000)
   \<and> (20240 * 86400000 :: int) < 20274 * 86400000
   \<and> dayCount exampleEngine (start_date exampleConfig) (end_date exampleConfig) = Some (- 33)
   \<and> validateDailyRange exampleEngine (start_date exampleConfig) (end_date exampleConfig) = Inr ()
   \<and> hd (requests (fst (snd (runReport exampleEngine ProductGmvMaxCampaignDaily exampleConfig
          (Some ''token'') exampleApi (Suc 0) Map.empty))))
       = params ProductGmvMaxCampaignDaily exampleConfig 1
   \<and> rq_start_date (params ProductGmvMaxCampaignDaily exampleConfig 1) = ''2025-07-05''
   \<and> rq_end_date (params ProductGmvMaxCampaignDaily exampleConfig 1) = ''2025-06-01''"
proof -
  have p: "dateParse exampleEngine (start_date exampleConfig @ ''T00:00:00Z'') = Some (20274 * 86400000)"
     "dateParse exampleEngine (end_date exampleConfig @ ''T00:00:00Z'') = Some (20240 * 86400000)"
    by (simp_all add: exampleEngine_def exampleDateParse_def exampleConfig_def)
  have dc: "dayCount exampleEngine (start_date exampleConfig) (end_date exampleConfig) = Some (- 33)"
    by (simp add: dayCount_def p msInDay_def)
  show ?thesis
    using inverted_range_not_rejected[of exampleEngine "''x''" "''y''" exampleConfig
            "20274 * 86400000" "20240 * 86400000" "Some ''token''" "''token''"
            ProductGmvMaxCampaignDaily exampleApi 0 Map.empty] p dc
    by (auto simp: exampleConfig_def params_def simp del: fetchAll.simps)
qed

end
